theory Spec2Isabelle
  imports Complex_Main "HOL-Library.Multiset"
begin

section \<open>Numbers and configuration\<close>

text \<open>
  The TypeScript type \<^verbatim>\<open>number\<close> is modelled by the reals: coordinates, speeds, scores
  and times are exact, so rounding, NaN and the infinities of IEEE doubles are outside the
  model. Array indices and lengths are natural numbers.
\<close>

type_synonym number = real

text \<open>The entries of \<^verbatim>\<open>GAME_CONFIG\<close> (config/gameConfig.ts) that the game logic reads.\<close>

definition canvas_width :: number where "canvas_width = 800"
definition player_width :: number where "player_width = 50"
definition player_height :: number where "player_height = 30"
definition player_speed :: number where "player_speed = 5"
definition player_startX :: number where "player_startX = 400"
definition player_startY :: number where "player_startY = 550"
definition enemies_width :: number where "enemies_width = 40"
definition enemies_height :: number where "enemies_height = 30"
definition enemies_speed :: number where "enemies_speed = 1"
definition enemies_rows :: nat where "enemies_rows = 5"
definition enemies_cols :: nat where "enemies_cols = 10"
definition enemies_spacing_horizontal :: number where "enemies_spacing_horizontal = 20"
definition enemies_spacing_vertical :: number where "enemies_spacing_vertical = 15"
definition enemies_startPosition_x :: number where "enemies_startPosition_x = 50"
definition enemies_startPosition_y :: number where "enemies_startPosition_y = 50"
definition enemies_dropDistance :: number where "enemies_dropDistance = 20"
definition bullets_width :: number where "bullets_width = 4"
definition bullets_height :: number where "bullets_height = 10"
definition bullets_speed :: number where "bullets_speed = 7"
definition particles_maxLife :: number where "particles_maxLife = 30"
definition particles_speedRange :: number where "particles_speedRange = 8"
definition game_initialLives :: number where "game_initialLives = 3"
definition game_pointsPerEnemy :: number where "game_pointsPerEnemy = 10"
definition game_targetFrameTime :: number where "game_targetFrameTime = 16.67"

section \<open>Entity types (types/game.ts)\<close>

text \<open>
  The interfaces extend one another; extensible records give the same structural
  subtyping: a function on \<open>'a CollisionBox_scheme\<close> accepts a bullet, an enemy or the
  player, as \<^verbatim>\<open>checkCollision\<close> does in the source.
\<close>

record Position =
  x :: number
  y :: number

record CollisionBox = Position +
  width :: number
  height :: number

record GameObject = CollisionBox +
  active :: bool

record Player = GameObject +
  speed :: number
  lives :: number

record Bullet = GameObject +
  speed :: number

record Enemy = GameObject +
  speed :: number
  direction :: number
  animFrame :: number
  row :: number
  col :: number

record Particle = Position +
  vx :: number
  vy :: number
  life :: number
  maxLife :: number
  color :: string

section \<open>Game logic (utils/gameLogic.ts)\<close>

definition checkCollision :: "'a CollisionBox_scheme \<Rightarrow> 'b CollisionBox_scheme \<Rightarrow> bool" where
  "checkCollision obj1 obj2 \<longleftrightarrow>
     x obj1 < x obj2 + width obj2 \<and>
     x obj1 + width obj1 > x obj2 \<and>
     y obj1 < y obj2 + height obj2 \<and>
     y obj1 + height obj1 > y obj2"

definition createEnemy :: "nat \<Rightarrow> nat \<Rightarrow> Enemy" where
  "createEnemy r c =
     \<lparr> x = real c * (enemies_width + enemies_spacing_horizontal) + enemies_startPosition_x,
       y = real r * (enemies_height + enemies_spacing_vertical) + enemies_startPosition_y,
       width = enemies_width,
       height = enemies_height,
       active = True,
       Enemy.speed = enemies_speed,
       direction = 1,
       animFrame = 0,
       row = real r,
       col = real c \<rparr>"

text \<open>The two nested \<^verbatim>\<open>for\<close> loops push row by row, column by column.\<close>

definition createEnemyGrid :: "Enemy list" where
  "createEnemyGrid =
     concat (map (\<lambda>r. map (\<lambda>c. createEnemy r c) [0..<enemies_cols]) [0..<enemies_rows])"

text \<open>First pass of \<^verbatim>\<open>updateEnemyPositions\<close>: the \<^verbatim>\<open>forEach\<close> that sets the flag.\<close>

definition hitsBoundary :: "Enemy \<Rightarrow> bool" where
  "hitsBoundary enemy =
     (let newX = x enemy + Enemy.speed enemy * direction enemy
      in newX \<le> 0 \<or> newX \<ge> canvas_width - width enemy)"

definition boundaryCheck :: "Enemy list \<Rightarrow> bool" where
  "boundaryCheck enemies =
     fold (\<lambda>enemy shouldMoveDown.
             if \<not> active enemy then shouldMoveDown
             else if hitsBoundary enemy then True else shouldMoveDown)
          enemies False"

text \<open>Second pass: the \<^verbatim>\<open>map\<close> callback.\<close>

definition moveEnemy :: "bool \<Rightarrow> Enemy \<Rightarrow> Enemy" where
  "moveEnemy shouldMoveDown enemy =
     (if \<not> active enemy then enemy
      else if shouldMoveDown then
        enemy\<lparr> direction := direction enemy * (- 1),
               y := y enemy + enemies_dropDistance \<rparr>
      else
        enemy\<lparr> x := x enemy + Enemy.speed enemy * direction enemy \<rparr>)"

definition updateEnemyPositions :: "Enemy list \<Rightarrow> bool \<times> Enemy list" where
  "updateEnemyPositions enemies =
     (let shouldMoveDown = boundaryCheck enemies
      in (shouldMoveDown, map (moveEnemy shouldMoveDown) enemies))"

text \<open>
  \<^verbatim>\<open>checkBulletEnemyCollisions\<close>: the accumulator is the triple
  (hitBullets, hitEnemies, score) that the two nested \<^verbatim>\<open>forEach\<close> loops push to.
\<close>

type_synonym hits = "nat list \<times> nat list \<times> number"

definition enemyStep :: "nat \<Rightarrow> Bullet \<Rightarrow> nat \<times> Enemy \<Rightarrow> hits \<Rightarrow> hits" where
  "enemyStep bulletIndex bullet ie acc =
     (case ie of (enemyIndex, enemy) \<Rightarrow>
      case acc of (hitBullets, hitEnemies, score) \<Rightarrow>
        if \<not> active enemy then acc
        else if checkCollision bullet enemy then
          (hitBullets @ [bulletIndex], hitEnemies @ [enemyIndex], score + game_pointsPerEnemy)
        else acc)"

definition bulletStep :: "Enemy list \<Rightarrow> nat \<times> Bullet \<Rightarrow> hits \<Rightarrow> hits" where
  "bulletStep enemies ib acc =
     (case ib of (bulletIndex, bullet) \<Rightarrow>
        if \<not> active bullet then acc
        else fold (enemyStep bulletIndex bullet) (enumerate 0 enemies) acc)"

definition checkBulletEnemyCollisions :: "Bullet list \<Rightarrow> Enemy list \<Rightarrow> hits" where
  "checkBulletEnemyCollisions bullets enemies =
     fold (bulletStep enemies) (enumerate 0 bullets) ([], [], 0)"

text \<open>
  The specification's side of the collision count: the colliding pairs of an active
  bullet and an active enemy, as index pairs, in bullet-major order.
\<close>

definition collidingPairs :: "Bullet list \<Rightarrow> Enemy list \<Rightarrow> (nat \<times> nat) list" where
  "collidingPairs bullets enemies =
     concat (map (\<lambda>(bi, b).
               map (\<lambda>(ei, e). (bi, ei))
                   (filter (\<lambda>(ei, e). active b \<and> active e \<and> checkCollision b e)
                           (enumerate 0 enemies)))
             (enumerate 0 bullets))"

text \<open>The same list for bullets numbered from \<open>n\<close>, for the induction over the bullets.\<close>

definition pairsFrom :: "nat \<Rightarrow> Bullet list \<Rightarrow> Enemy list \<Rightarrow> (nat \<times> nat) list" where
  "pairsFrom n bs es = concat (map (\<lambda>(bi, b).
               map (\<lambda>(ei, e). (bi, ei))
                   (filter (\<lambda>(ei, e). GameObject.active b \<and> GameObject.active e \<and> checkCollision b e)
                           (enumerate 0 es)))
             (enumerate n bs))"

section \<open>Object pool (utils/objectPool.ts)\<close>

text \<open>
  Pooled objects are mutable and compared by identity (\<^verbatim>\<open>indexOf\<close>), so the pool's two
  arrays hold references and the objects' fields live in a heap. \<^verbatim>\<open>createFn\<close> is a
  constructor call: it allocates a reference that has never been handed out, with the
  fields of a newly constructed object. The interface \<^verbatim>\<open>Poolable\<close> is a record of the two
  methods, each acting on the object's own fields. \<^verbatim>\<open>initialSize\<close> and \<^verbatim>\<open>maxSize\<close>
  are counts, hence natural numbers.
\<close>

type_synonym ref = nat

record 'a Poolable =
  reset :: "'a \<Rightarrow> 'a"
  isActive :: "'a \<Rightarrow> bool"

record 'a ObjectPool =
  pool :: "ref list"
  active :: "ref list"
  createFn :: "'a"
  maxSize :: nat
  heap :: "ref \<Rightarrow> 'a"
  fresh :: ref

text \<open>\<^verbatim>\<open>this.createFn()\<close>: a new object at the next unused reference.\<close>

definition construct :: "'a ObjectPool \<Rightarrow> ref \<times> 'a ObjectPool" where
  "construct P = (fresh P, P\<lparr> heap := (heap P)(fresh P := createFn P), fresh := Suc (fresh P) \<rparr>)"

text \<open>The constructor's loop: \<open>n\<close> iterations remain, each pushes one new object.\<close>

fun prepopulate :: "nat \<Rightarrow> 'a ObjectPool \<Rightarrow> 'a ObjectPool" where
  "prepopulate 0 P = P"
| "prepopulate (Suc n) P =
     (let (obj, P') = construct P in prepopulate n (P'\<lparr> pool := pool P' @ [obj] \<rparr>))"

definition ObjectPool_new :: "'a \<Rightarrow> nat \<Rightarrow> nat \<Rightarrow> 'a ObjectPool" where
  "ObjectPool_new mk initialSize maxSz =
     prepopulate initialSize
       \<lparr> pool = [], active = [], createFn = mk, maxSize = maxSz, heap = (\<lambda>_. mk), fresh = 0 \<rparr>"

text \<open>\<^verbatim>\<open>Array.prototype.pop\<close>: removes and returns the last element, if there is one.\<close>

definition pop :: "'a ObjectPool \<Rightarrow> ref option \<times> 'a ObjectPool" where
  "pop P = (if pool P = [] then (None, P) else (Some (last (pool P)), P\<lparr> pool := butlast (pool P) \<rparr>))"

definition ObjectPool_get :: "'a ObjectPool \<Rightarrow> ref option \<times> 'a ObjectPool" where
  "ObjectPool_get P =
     (let (obj, P1) = pop P;
          (obj, P2) = (if obj = None \<and> length (active P1) + length (pool P1) < maxSize P1
                       then (let (new, P') = construct P1 in (Some new, P'))
                       else (obj, P1))
      in case obj of
           Some r \<Rightarrow> (Some r, P2\<lparr> active := active P2 @ [r] \<rparr>)
         | None \<Rightarrow> (None, P2))"

text \<open>\<^verbatim>\<open>indexOf\<close>: the first index of the element; \<open>None\<close> stands for \<open>-1\<close>.\<close>

fun indexOf :: "'b list \<Rightarrow> 'b \<Rightarrow> nat option" where
  "indexOf [] a = None"
| "indexOf (b # bs) a = (if b = a then Some 0 else map_option Suc (indexOf bs a))"

text \<open>\<^verbatim>\<open>splice(index, 1)\<close>: removes the element at the index.\<close>

definition splice1 :: "nat \<Rightarrow> 'b list \<Rightarrow> 'b list" where
  "splice1 index xs = take index xs @ drop (Suc index) xs"

text \<open>\<^verbatim>\<open>obj.reset(); this.pool.push(obj)\<close>, shared by release, releaseAll and update.\<close>

definition resetAndPush :: "'a Poolable \<Rightarrow> ref \<Rightarrow> 'a ObjectPool \<Rightarrow> 'a ObjectPool" where
  "resetAndPush T obj P =
     P\<lparr> heap := (heap P)(obj := reset T (heap P obj)), pool := pool P @ [obj] \<rparr>"

definition ObjectPool_release :: "'a Poolable \<Rightarrow> 'a ObjectPool \<Rightarrow> ref \<Rightarrow> 'a ObjectPool" where
  "ObjectPool_release T P obj =
     (case indexOf (active P) obj of
        None \<Rightarrow> P
      | Some index \<Rightarrow> resetAndPush T obj (P\<lparr> active := splice1 index (active P) \<rparr>))"

definition ObjectPool_releaseAll :: "'a Poolable \<Rightarrow> 'a ObjectPool \<Rightarrow> 'a ObjectPool" where
  "ObjectPool_releaseAll T P = (fold (resetAndPush T) (active P) P)\<lparr> active := [] \<rparr>"

definition ObjectPool_getActive :: "'a Poolable \<Rightarrow> 'a ObjectPool \<Rightarrow> ref list" where
  "ObjectPool_getActive T P = filter (\<lambda>obj. isActive T (heap P obj)) (active P)"

text \<open>
  The loop of \<^verbatim>\<open>update\<close> runs \<open>i\<close> from \<open>length - 1\<close> down to \<open>0\<close>; \<open>updateLoop T (Suc i)\<close>
  is the iteration at index \<open>i\<close> followed by the remaining ones. A splice at \<open>i\<close> leaves
  the elements below \<open>i\<close> in place, so every index read is in range.
\<close>

fun updateLoop :: "'a Poolable \<Rightarrow> nat \<Rightarrow> 'a ObjectPool \<Rightarrow> 'a ObjectPool" where
  "updateLoop T 0 P = P"
| "updateLoop T (Suc i) P =
     (let obj = active P ! i
      in if \<not> isActive T (heap P obj)
         then updateLoop T i (resetAndPush T obj (P\<lparr> active := splice1 i (active P) \<rparr>))
         else updateLoop T i P)"

definition ObjectPool_update :: "'a Poolable \<Rightarrow> 'a ObjectPool \<Rightarrow> 'a ObjectPool" where
  "ObjectPool_update T P = updateLoop T (length (active P)) P"

definition ObjectPool_getStats :: "'a ObjectPool \<Rightarrow> nat \<times> nat \<times> nat" where
  "ObjectPool_getStats P =
     (length (pool P), length (active P), length (pool P) + length (active P))"

text \<open>The operations of a pool's client, and a run of them.\<close>

datatype PoolOp = Get | Release ref | ReleaseAll | Update

fun applyPoolOp :: "'a Poolable \<Rightarrow> PoolOp \<Rightarrow> 'a ObjectPool \<Rightarrow> 'a ObjectPool" where
  "applyPoolOp T Get P = snd (ObjectPool_get P)"
| "applyPoolOp T (Release obj) P = ObjectPool_release T P obj"
| "applyPoolOp T ReleaseAll P = ObjectPool_releaseAll T P"
| "applyPoolOp T Update P = ObjectPool_update T P"

text \<open>\<open>n\<close> successive calls of \<^verbatim>\<open>get\<close>, with what each returned.\<close>

fun getMany :: "nat \<Rightarrow> 'a ObjectPool \<Rightarrow> ref option list \<times> 'a ObjectPool" where
  "getMany 0 P = ([], P)"
| "getMany (Suc n) P =
     (let (r, P1) = ObjectPool_get P; (rs, P2) = getMany n P1 in (r # rs, P2))"

text \<open>The pool's capacity invariant.\<close>

definition withinCapacity :: "'a ObjectPool \<Rightarrow> bool" where
  "withinCapacity P \<longleftrightarrow> length (pool P) + length (active P) \<le> maxSize P"

subsection \<open>The poolable bullet and particle\<close>

definition PooledBullet_new :: Bullet where
  "PooledBullet_new =
     \<lparr> x = 0, y = 0, width = bullets_width, height = bullets_height,
       GameObject.active = False, Bullet.speed = bullets_speed \<rparr>"

definition PooledBullet_init :: "number \<Rightarrow> number \<Rightarrow> Bullet \<Rightarrow> Bullet" where
  "PooledBullet_init x0 y0 b = b\<lparr> x := x0, y := y0, GameObject.active := True \<rparr>"

definition PooledBullet_reset :: "Bullet \<Rightarrow> Bullet" where
  "PooledBullet_reset b = b\<lparr> x := 0, y := 0, GameObject.active := False \<rparr>"

definition PooledBullet_isActive :: "Bullet \<Rightarrow> bool" where
  "PooledBullet_isActive b \<longleftrightarrow> GameObject.active b \<and> y b > - height b"

definition PooledBullet_update :: "Bullet \<Rightarrow> Bullet" where
  "PooledBullet_update b =
     (if GameObject.active b then
        (let b1 = b\<lparr> y := y b - Bullet.speed b \<rparr>
         in if y b1 < - height b1 then b1\<lparr> GameObject.active := False \<rparr> else b1)
      else b)"

definition PooledBullet :: "Bullet Poolable" where
  "PooledBullet = \<lparr> reset = PooledBullet_reset, isActive = PooledBullet_isActive \<rparr>"

definition bulletPool :: "Bullet ObjectPool" where
  "bulletPool = ObjectPool_new PooledBullet_new 20 50"

text \<open>
  \<^verbatim>\<open>PooledParticle.init\<close> draws two numbers with \<^verbatim>\<open>Math.random()\<close>; they are the
  parameters \<open>r1\<close> and \<open>r2\<close>.
\<close>

definition PooledParticle_new :: Particle where
  "PooledParticle_new =
     \<lparr> x = 0, y = 0, vx = 0, vy = 0, life = 0, maxLife = particles_maxLife,
       color = ''#ffffff'' \<rparr>"

definition PooledParticle_init ::
  "number \<Rightarrow> number \<Rightarrow> string \<Rightarrow> number \<Rightarrow> number \<Rightarrow> Particle \<Rightarrow> Particle" where
  "PooledParticle_init x0 y0 c r1 r2 p =
     p\<lparr> x := x0, y := y0,
        vx := (r1 - 0.5) * particles_speedRange,
        vy := (r2 - 0.5) * particles_speedRange,
        life := maxLife p, color := c \<rparr>"

definition PooledParticle_reset :: "Particle \<Rightarrow> Particle" where
  "PooledParticle_reset p =
     p\<lparr> x := 0, y := 0, vx := 0, vy := 0, life := 0, color := ''#ffffff'' \<rparr>"

definition PooledParticle_isActive :: "Particle \<Rightarrow> bool" where
  "PooledParticle_isActive p \<longleftrightarrow> life p > 0"

definition PooledParticle_update :: "Particle \<Rightarrow> Particle" where
  "PooledParticle_update p =
     (if life p > 0 then p\<lparr> x := x p + vx p, y := y p + vy p, life := life p - 1 \<rparr> else p)"

definition PooledParticle :: "Particle Poolable" where
  "PooledParticle = \<lparr> reset = PooledParticle_reset, isActive = PooledParticle_isActive \<rparr>"

definition particlePool :: "Particle ObjectPool" where
  "particlePool = ObjectPool_new PooledParticle_new 50 200"

section \<open>Game state manager (utils/gameStateManager.ts)\<close>

datatype GamePhase = Start | Playing | Paused | GameOver | LevelComplete

text \<open>In the source a phase is its name; the phase-change event uses the name as its type.\<close>

fun phaseName :: "GamePhase \<Rightarrow> string" where
  "phaseName Start = ''start''"
| "phaseName Playing = ''playing''"
| "phaseName Paused = ''paused''"
| "phaseName GameOver = ''gameOver''"
| "phaseName LevelComplete = ''levelComplete''"

record GameState =
  phase :: GamePhase
  score :: number
  lives :: number
  level :: number
  enemies :: "Enemy list"
  bullets :: "Bullet list"
  particles :: "Particle list"
  player :: Player
  lastUpdateTime :: number
  fps :: number

text \<open>\<^verbatim>\<open>Partial<GameState>\<close>: every field may be absent.\<close>

record GameStateUpdates =
  set_phase :: "GamePhase option"
  set_score :: "number option"
  set_lives :: "number option"
  set_level :: "number option"
  set_enemies :: "Enemy list option"
  set_bullets :: "Bullet list option"
  set_particles :: "Particle list option"
  set_player :: "Player option"
  set_lastUpdateTime :: "number option"
  set_fps :: "number option"

definition noUpdates :: GameStateUpdates where
  "noUpdates =
     \<lparr> set_phase = None, set_score = None, set_lives = None, set_level = None,
       set_enemies = None, set_bullets = None, set_particles = None, set_player = None,
       set_lastUpdateTime = None, set_fps = None \<rparr>"

text \<open>The object spread \<^verbatim>\<open>{ ...this.state, ...updates }\<close>.\<close>

definition spread :: "GameState \<Rightarrow> GameStateUpdates \<Rightarrow> GameState" where
  "spread s u =
     \<lparr> phase = (case set_phase u of None \<Rightarrow> phase s | Some v \<Rightarrow> v),
       score = (case set_score u of None \<Rightarrow> score s | Some v \<Rightarrow> v),
       lives = (case set_lives u of None \<Rightarrow> GameState.lives s | Some v \<Rightarrow> v),
       level = (case set_level u of None \<Rightarrow> level s | Some v \<Rightarrow> v),
       enemies = (case set_enemies u of None \<Rightarrow> enemies s | Some v \<Rightarrow> v),
       bullets = (case set_bullets u of None \<Rightarrow> bullets s | Some v \<Rightarrow> v),
       particles = (case set_particles u of None \<Rightarrow> particles s | Some v \<Rightarrow> v),
       player = (case set_player u of None \<Rightarrow> player s | Some v \<Rightarrow> v),
       lastUpdateTime = (case set_lastUpdateTime u of None \<Rightarrow> lastUpdateTime s | Some v \<Rightarrow> v),
       fps = (case set_fps u of None \<Rightarrow> fps s | Some v \<Rightarrow> v) \<rparr>"

datatype EventData =
    PhaseChangeData GamePhase GamePhase
  | FinalScoreData number
  | LevelData number
  | LivesRemainingData number

record GameEvent =
  etype :: string
  edata :: EventData

text \<open>
  Handlers and listeners are callbacks of the manager's clients, identified by a number.
  What the manager does with them is to call them, and an exception they throw is caught;
  so the model records every call, with its argument, in \<open>calls\<close>. A callback that calls
  back into the manager is outside the model.
\<close>

datatype Call = HandlerCall nat GameEvent | ListenerCall nat GameState

record GameStateManager =
  state :: GameState
  listeners :: "nat list"
  eventHandlers :: "string \<rightharpoonup> nat list"
  calls :: "Call list"

definition createPlayer :: Player where
  "createPlayer =
     \<lparr> x = player_startX - player_width / 2,
       y = player_startY,
       width = player_width,
       height = player_height,
       GameObject.active = True,
       Player.speed = player_speed,
       Player.lives = game_initialLives \<rparr>"

definition createInitialState :: GameState where
  "createInitialState =
     \<lparr> phase = Start, score = 0, lives = game_initialLives, level = 1,
       enemies = [], bullets = [], particles = [], player = createPlayer,
       lastUpdateTime = 0, fps = 0 \<rparr>"

definition GameStateManager_new :: GameStateManager where
  "GameStateManager_new =
     \<lparr> state = createInitialState, listeners = [], eventHandlers = Map.empty, calls = [] \<rparr>"

definition emitEvent :: "GameEvent \<Rightarrow> GameStateManager \<Rightarrow> GameStateManager" where
  "emitEvent event M =
     (case eventHandlers M (etype event) of
        None \<Rightarrow> M
      | Some handlers \<Rightarrow> M\<lparr> calls := calls M @ map (\<lambda>h. HandlerCall h event) handlers \<rparr>)"

definition notifyListeners :: "GameStateManager \<Rightarrow> GameStateManager" where
  "notifyListeners M = M\<lparr> calls := calls M @ map (\<lambda>l. ListenerCall l (state M)) (listeners M) \<rparr>"

definition updateState :: "GameStateUpdates \<Rightarrow> GameStateManager \<Rightarrow> GameStateManager" where
  "updateState updates M =
     (let previousPhase = phase (state M);
          M1 = M\<lparr> state := spread (state M) updates \<rparr>;
          M2 = (if previousPhase \<noteq> phase (state M1)
                then emitEvent \<lparr> etype = phaseName (phase (state M1)),
                                 edata = PhaseChangeData previousPhase (phase (state M1)) \<rparr> M1
                else M1)
      in notifyListeners M2)"

definition startGame :: "GameStateManager \<Rightarrow> GameStateManager" where
  "startGame M =
     notifyListeners (M\<lparr> state := createInitialState\<lparr> phase := Playing, enemies := createEnemyGrid \<rparr> \<rparr>)"

definition pauseGame :: "GameStateManager \<Rightarrow> GameStateManager" where
  "pauseGame M =
     (if phase (state M) = Playing then updateState (noUpdates\<lparr> set_phase := Some Paused \<rparr>) M else M)"

definition resumeGame :: "GameStateManager \<Rightarrow> GameStateManager" where
  "resumeGame M =
     (if phase (state M) = Paused then updateState (noUpdates\<lparr> set_phase := Some Playing \<rparr>) M else M)"

definition gameOver :: "GameStateManager \<Rightarrow> GameStateManager" where
  "gameOver M =
     (let M1 = updateState (noUpdates\<lparr> set_phase := Some GameOver \<rparr>) M
      in emitEvent \<lparr> etype = ''gameOver'', edata = FinalScoreData (score (state M1)) \<rparr> M1)"

definition startPlayer :: "Player \<Rightarrow> Player" where
  "startPlayer p = p\<lparr> x := player_startX - player_width / 2, y := player_startY \<rparr>"

definition nextLevel :: "GameStateManager \<Rightarrow> GameStateManager" where
  "nextLevel M =
     (let newLevel = level (state M) + 1;
          M1 = updateState
                 (noUpdates\<lparr> set_level := Some newLevel,
                             set_enemies := Some createEnemyGrid,
                             set_bullets := Some [],
                             set_particles := Some [],
                             set_player := Some (startPlayer (player (state M))) \<rparr>) M
      in emitEvent \<lparr> etype = ''levelComplete'', edata = LevelData newLevel \<rparr> M1)"

definition loseLife :: "GameStateManager \<Rightarrow> GameStateManager" where
  "loseLife M =
     (let newLives = max 0 (GameState.lives (state M) - 1);
          M1 = updateState (noUpdates\<lparr> set_lives := Some newLives \<rparr>) M;
          M2 = (if newLives \<le> 0 then gameOver M1
                else updateState
                       (noUpdates\<lparr> set_player := Some (startPlayer (player (state M1))),
                                   set_enemies := Some createEnemyGrid,
                                   set_bullets := Some [],
                                   set_particles := Some [] \<rparr>) M1)
      in emitEvent \<lparr> etype = ''playerHit'', edata = LivesRemainingData newLives \<rparr> M2)"

definition addScore :: "number \<Rightarrow> GameStateManager \<Rightarrow> GameStateManager" where
  "addScore points M = updateState (noUpdates\<lparr> set_score := Some (score (state M) + points) \<rparr>) M"

definition updateFPS :: "number \<Rightarrow> GameStateManager \<Rightarrow> GameStateManager" where
  "updateFPS f M = updateState (noUpdates\<lparr> set_fps := Some f \<rparr>) M"

definition updateLastUpdateTime :: "number \<Rightarrow> GameStateManager \<Rightarrow> GameStateManager" where
  "updateLastUpdateTime time M = updateState (noUpdates\<lparr> set_lastUpdateTime := Some time \<rparr>) M"

definition addEventListener :: "string \<Rightarrow> nat \<Rightarrow> GameStateManager \<Rightarrow> GameStateManager" where
  "addEventListener eventType handler M =
     (let M1 = (if eventHandlers M eventType = None
                then M\<lparr> eventHandlers := (eventHandlers M)(eventType \<mapsto> []) \<rparr> else M)
      in M1\<lparr> eventHandlers :=
               (eventHandlers M1)(eventType \<mapsto> the (eventHandlers M1 eventType) @ [handler]) \<rparr>)"

definition subscribe :: "nat \<Rightarrow> GameStateManager \<Rightarrow> GameStateManager" where
  "subscribe listener M = M\<lparr> listeners := listeners M @ [listener] \<rparr>"

definition GameStateManager_reset :: "GameStateManager \<Rightarrow> GameStateManager" where
  "GameStateManager_reset M = notifyListeners (M\<lparr> state := createInitialState \<rparr>)"

text \<open>The manager's state-changing methods as operations, and a run of them.\<close>

datatype ManagerOp =
    UpdateState GameStateUpdates
  | StartGame | PauseGame | ResumeGame | GameOverOp | NextLevel | LoseLife
  | AddScore number | UpdateFPS number | UpdateLastUpdateTime number
  | AddEventListener string nat | Subscribe nat
  | Reset

fun applyOp :: "ManagerOp \<Rightarrow> GameStateManager \<Rightarrow> GameStateManager" where
  "applyOp (UpdateState u) M = updateState u M"
| "applyOp StartGame M = startGame M"
| "applyOp PauseGame M = pauseGame M"
| "applyOp ResumeGame M = resumeGame M"
| "applyOp GameOverOp M = gameOver M"
| "applyOp NextLevel M = nextLevel M"
| "applyOp LoseLife M = loseLife M"
| "applyOp (AddScore points) M = addScore points M"
| "applyOp (UpdateFPS f) M = updateFPS f M"
| "applyOp (UpdateLastUpdateTime t) M = updateLastUpdateTime t M"
| "applyOp (AddEventListener ty h) M = addEventListener ty h M"
| "applyOp (Subscribe l) M = subscribe l M"
| "applyOp Reset M = GameStateManager_reset M"

text \<open>The states a run passes through, one per operation, in order.\<close>

fun runStates :: "ManagerOp list \<Rightarrow> GameStateManager \<Rightarrow> GameStateManager list" where
  "runStates [] M = []"
| "runStates (op # ops) M = applyOp op M # runStates ops (applyOp op M)"

text \<open>
  How often a run of phases enters the phase \<open>p\<close> from another one; the operations that are
  not a restart; and the operations that leave the score alone or add a non-negative
  number of points to it.
\<close>

fun countTransitions :: "GamePhase \<Rightarrow> GamePhase list \<Rightarrow> nat" where
  "countTransitions p [] = 0"
| "countTransitions p [a] = 0"
| "countTransitions p (a # b # rest) =
     (if a \<noteq> p \<and> b = p then 1 else 0) + countTransitions p (b # rest)"

fun noRestart :: "ManagerOp \<Rightarrow> bool" where
  "noRestart PauseGame = True"
| "noRestart ResumeGame = True"
| "noRestart LoseLife = True"
| "noRestart NextLevel = True"
| "noRestart _ = False"

fun scoreSafe :: "ManagerOp \<Rightarrow> bool" where
  "scoreSafe StartGame = False"
| "scoreSafe Reset = False"
| "scoreSafe (UpdateState u) = (set_score u = None)"
| "scoreSafe (AddScore points) = (0 \<le> points)"
| "scoreSafe _ = True"

section \<open>Fixed-timestep loop (hooks/useGameLoop.ts)\<close>

text \<open>
  The two callbacks belong to the loop's client. Each acts on the client's own state \<open>'w\<close>
  and may throw: it returns whether it threw, and the state it left. The loop's refs are
  the fields of \<open>GameLoop\<close>; \<open>invoked\<close> records every callback invocation with its
  arguments, in order. \<^verbatim>\<open>requestAnimationFrame\<close> hands out consecutive handles.
\<close>

record 'w GameLoopCallbacks =
  onUpdate :: "number \<Rightarrow> number \<Rightarrow> 'w \<Rightarrow> bool \<times> 'w"
  onRender :: "number \<Rightarrow> 'w \<Rightarrow> bool \<times> 'w"

datatype Invocation = OnUpdate number number | OnRender number

record FpsCounter =
  frames :: nat
  lastTime :: number
  fpsValue :: nat

record 'w GameLoop =
  requestRef :: "nat option"
  previousTimeRef :: "number option"
  lagRef :: number
  fpsCounterRef :: FpsCounter
  world :: 'w
  invoked :: "Invocation list"

definition targetFrameTime :: number where
  "targetFrameTime = game_targetFrameTime"

definition maxUpdates :: nat where
  "maxUpdates = 5"

definition requestAnimationFrame :: "'w GameLoop \<Rightarrow> 'w GameLoop" where
  "requestAnimationFrame L =
     L\<lparr> requestRef := Some (case requestRef L of None \<Rightarrow> 1 | Some h \<Rightarrow> Suc h) \<rparr>"

text \<open>
  The \<^verbatim>\<open>while\<close> loop, entered with the current \<open>updateCount\<close>. The \<^verbatim>\<open>catch\<close>
  branch sets the lag to \<open>0\<close> and leaves the loop.
\<close>

function fixedUpdates ::
  "'w GameLoopCallbacks \<Rightarrow> number \<Rightarrow> nat \<Rightarrow> 'w GameLoop \<Rightarrow> 'w GameLoop" where
  "fixedUpdates cb currentTime updateCount L =
     (if lagRef L \<ge> targetFrameTime \<and> updateCount < maxUpdates then
        (if fst (onUpdate cb targetFrameTime currentTime (world L)) then
           L\<lparr> world := snd (onUpdate cb targetFrameTime currentTime (world L)),
              invoked := invoked L @ [OnUpdate targetFrameTime currentTime],
              lagRef := 0 \<rparr>
         else
           fixedUpdates cb currentTime (Suc updateCount)
             (L\<lparr> world := snd (onUpdate cb targetFrameTime currentTime (world L)),
                 invoked := invoked L @ [OnUpdate targetFrameTime currentTime],
                 lagRef := lagRef L - targetFrameTime \<rparr>))
      else L)"
  by pat_completeness auto
termination
  by (relation "measure (\<lambda>(cb, currentTime, updateCount, L). maxUpdates - updateCount)") auto

definition render :: "'w GameLoopCallbacks \<Rightarrow> number \<Rightarrow> 'w GameLoop \<Rightarrow> 'w GameLoop" where
  "render cb interpolation L =
     L\<lparr> world := snd (onRender cb interpolation (world L)),
        invoked := invoked L @ [OnRender interpolation] \<rparr>"

definition countFrame :: "number \<Rightarrow> FpsCounter \<Rightarrow> FpsCounter" where
  "countFrame currentTime c =
     (let c1 = c\<lparr> frames := Suc (frames c) \<rparr>
      in if currentTime - lastTime c1 \<ge> 1000
         then c1\<lparr> fpsValue := frames c1, frames := 0, lastTime := currentTime \<rparr>
         else c1)"

definition gameLoop ::
  "'w GameLoopCallbacks \<Rightarrow> bool \<Rightarrow> number \<Rightarrow> 'w GameLoop \<Rightarrow> 'w GameLoop" where
  "gameLoop cb isActiveLoop currentTime L =
     (if \<not> isActiveLoop then requestAnimationFrame L
      else
        (let previousTime = (case previousTimeRef L of None \<Rightarrow> currentTime | Some t \<Rightarrow> t);
             deltaTime = currentTime - previousTime;
             L1 = L\<lparr> previousTimeRef := Some currentTime, lagRef := lagRef L + deltaTime \<rparr>;
             L2 = fixedUpdates cb currentTime 0 L1;
             interpolation = lagRef L2 / targetFrameTime;
             L3 = render cb interpolation L2;
             L4 = L3\<lparr> fpsCounterRef := countFrame currentTime (fpsCounterRef L3) \<rparr>
         in requestAnimationFrame L4))"

text \<open>The invocations of one callback, read off the record.\<close>

fun isUpdate :: "Invocation \<Rightarrow> bool" where
  "isUpdate (OnUpdate dt t) = True"
| "isUpdate (OnRender i) = False"

definition newLoop :: "'w \<Rightarrow> 'w GameLoop" where
  "newLoop w =
     \<lparr> requestRef = None, previousTimeRef = None, lagRef = 0,
       fpsCounterRef = \<lparr> frames = 0, lastTime = 0, fpsValue = 0 \<rparr>,
       world = w, invoked = [] \<rparr>"

text \<open>Callbacks that never throw and leave their state alone.\<close>

definition quietCallbacks :: "unit GameLoopCallbacks" where
  "quietCallbacks = \<lparr> onUpdate = (\<lambda>dt t w. (False, w)), onRender = (\<lambda>i w. (False, w)) \<rparr>"

section \<open>Collision detection\<close>

text \<open>
  C7. \<^verbatim>\<open>checkCollision(a, b)\<close> is true exactly when the four strict inequalities hold;
  hence it is symmetric, rectangles that only share an edge do not collide, and in
  particular \<open>{0,0,20,20}\<close> and \<open>{20,0,20,20}\<close> do not collide.
\<close>

theorem checkCollision_spec:
  fixes a :: "'a CollisionBox_scheme" and b :: "'b CollisionBox_scheme"
  shows "(checkCollision a b \<longleftrightarrow>
            x a < x b + width b \<and> x a + width a > x b \<and>
            y a < y b + height b \<and> y a + height a > y b)
       \<and> checkCollision a b = checkCollision b a
       \<and> (x a + width a = x b \<or> x b + width b = x a \<or>
          y a + height a = y b \<or> y b + height b = y a \<longrightarrow> \<not> checkCollision a b)
       \<and> \<not> checkCollision \<lparr>x = 0, y = 0, width = 20, height = 20\<rparr>
                           \<lparr>x = 20, y = 0, width = 20, height = 20\<rparr>"
  by (auto simp: checkCollision_def)

theorem checkCollision_spec_witness:
  "x \<lparr>x = 5, y = 0, width = 15, height = 20\<rparr> + width \<lparr>x = 5, y = 0, width = 15, height = 20\<rparr>
      = x \<lparr>x = 20, y = 7, width = 20, height = 20\<rparr>
   \<and> \<not> checkCollision \<lparr>x = 5, y = 0, width = 15, height = 20\<rparr>
                       \<lparr>x = 20, y = 7, width = 20, height = 20\<rparr>"
  using checkCollision_spec [of "\<lparr>x = 5, y = 0, width = 15, height = 20\<rparr>"
                                "\<lparr>x = 20, y = 7, width = 20, height = 20\<rparr>"]
  by simp

section \<open>Formation movement\<close>

lemma boundaryCheck_fold:
  "fold (\<lambda>enemy shouldMoveDown.
             if \<not> GameObject.active enemy then shouldMoveDown
             else if hitsBoundary enemy then True else shouldMoveDown) es b
   \<longleftrightarrow> b \<or> (\<exists>e \<in> set es. GameObject.active e \<and> hitsBoundary e)"
  by (induction es arbitrary: b) auto

lemma boundaryCheck_iff:
  "boundaryCheck es \<longleftrightarrow> (\<exists>e \<in> set es. GameObject.active e \<and> hitsBoundary e)"
  by (simp add: boundaryCheck_def boundaryCheck_fold)

text \<open>
  C1. \<^verbatim>\<open>updateEnemyPositions\<close> moves the formation as one: the flag it returns is set
  exactly when some active enemy's projected \<open>x + speed * direction\<close> is \<open>\<le> 0\<close> or
  \<open>\<ge> canvasWidth - width\<close>; then every active enemy has its direction negated and its
  \<open>y\<close> increased by the drop distance, with \<open>x\<close> unchanged; otherwise every active
  enemy's \<open>x\<close> changes by \<open>speed * direction\<close> and nothing else does; an inactive enemy
  takes no part in the check and is returned unchanged.
\<close>

theorem updateEnemyPositions_formation:
  "(fst (updateEnemyPositions es) \<longleftrightarrow>
      (\<exists>e \<in> set es. GameObject.active e \<and>
         (x e + Enemy.speed e * direction e \<le> 0 \<or>
          x e + Enemy.speed e * direction e \<ge> canvas_width - width e)))
   \<and> length (snd (updateEnemyPositions es)) = length es
   \<and> (\<forall>i < length es.
         (\<not> GameObject.active (es ! i) \<longrightarrow> snd (updateEnemyPositions es) ! i = es ! i)
       \<and> (GameObject.active (es ! i) \<and> fst (updateEnemyPositions es) \<longrightarrow>
            snd (updateEnemyPositions es) ! i
              = (es ! i)\<lparr> direction := - direction (es ! i),
                          y := y (es ! i) + enemies_dropDistance \<rparr>
            \<and> x (snd (updateEnemyPositions es) ! i) = x (es ! i))
       \<and> (GameObject.active (es ! i) \<and> \<not> fst (updateEnemyPositions es) \<longrightarrow>
            snd (updateEnemyPositions es) ! i
              = (es ! i)\<lparr> x := x (es ! i) + Enemy.speed (es ! i) * direction (es ! i) \<rparr>))"
  by (auto simp: updateEnemyPositions_def boundaryCheck_iff hitsBoundary_def moveEnemy_def Let_def)

theorem updateEnemyPositions_formation_witness:
  "(1::nat) < length [(createEnemy 0 0)\<lparr> x := 759 \<rparr>, (createEnemy 1 3)\<lparr> GameObject.active := False \<rparr>]
   \<and> fst (updateEnemyPositions
            [(createEnemy 0 0)\<lparr> x := 759 \<rparr>, (createEnemy 1 3)\<lparr> GameObject.active := False \<rparr>])
   \<and> snd (updateEnemyPositions
            [(createEnemy 0 0)\<lparr> x := 759 \<rparr>, (createEnemy 1 3)\<lparr> GameObject.active := False \<rparr>])
       = [(createEnemy 0 0)\<lparr> x := 759, direction := - 1, y := 70 \<rparr>,
          (createEnemy 1 3)\<lparr> GameObject.active := False \<rparr>]
   \<and> (0::nat) < length [createEnemy 2 2]
   \<and> \<not> fst (updateEnemyPositions [createEnemy 2 2])
   \<and> snd (updateEnemyPositions [createEnemy 2 2]) = [(createEnemy 2 2)\<lparr> x := 171 \<rparr>]"
  using updateEnemyPositions_formation
          [of "[(createEnemy 0 0)\<lparr> x := 759 \<rparr>, (createEnemy 1 3)\<lparr> GameObject.active := False \<rparr>]"]
        updateEnemyPositions_formation [of "[createEnemy 2 2]"]
  by (simp add: createEnemy_def canvas_width_def enemies_width_def enemies_height_def
        enemies_speed_def enemies_spacing_horizontal_def enemies_spacing_vertical_def
        enemies_startPosition_x_def enemies_startPosition_y_def enemies_dropDistance_def
        updateEnemyPositions_def boundaryCheck_def hitsBoundary_def moveEnemy_def)

section \<open>Bullet-enemy collisions\<close>

lemma enemy_fold:
  "fold (enemyStep bi b) (enumerate n es) (hb, he, sc) =
     (hb @ map (\<lambda>(ei, e). bi) (filter (\<lambda>(ei, e). GameObject.active e \<and> checkCollision b e) (enumerate n es)),
      he @ map fst (filter (\<lambda>(ei, e). GameObject.active e \<and> checkCollision b e) (enumerate n es)),
      sc + game_pointsPerEnemy * real (length (filter (\<lambda>(ei, e). GameObject.active e \<and> checkCollision b e) (enumerate n es))))"
  by (induction es arbitrary: n hb he sc) (auto simp: enemyStep_def algebra_simps)

lemma bullet_fold:
  "fold (bulletStep es) (enumerate n bs) (hb, he, sc) =
     (hb @ map fst (pairsFrom n bs es), he @ map snd (pairsFrom n bs es),
      sc + game_pointsPerEnemy * real (length (pairsFrom n bs es)))"
proof (induction bs arbitrary: n hb he sc)
  case Nil
  show ?case by (simp add: pairsFrom_def)
next
  case (Cons b bs)
  have tail: "pairsFrom n (b # bs) es =
      map (\<lambda>(ei, e). (n, ei))
                   (filter (\<lambda>(ei, e). GameObject.active b \<and> GameObject.active e \<and> checkCollision b e)
                           (enumerate 0 es)) @ pairsFrom (Suc n) bs es"
    by (simp add: pairsFrom_def)
  let ?js = "filter (\<lambda>(ei, e). GameObject.active e \<and> checkCollision b e) (enumerate 0 es)"
  show ?case
  proof (cases "GameObject.active b")
    case False
    then have "bulletStep es (n, b) (hb, he, sc) = (hb, he, sc)"
      by (simp add: bulletStep_def)
    with False show ?thesis using Cons.IH [of "Suc n" hb he sc]
      by (simp add: tail)
  next
    case True
    then have step: "bulletStep es (n, b) (hb, he, sc) =
        (hb @ map (\<lambda>(ei, e). n) ?js, he @ map fst ?js,
         sc + game_pointsPerEnemy * real (length ?js))"
      by (simp add: bulletStep_def enemy_fold)
    have "fold (bulletStep es) (enumerate n (b # bs)) (hb, he, sc) =
          fold (bulletStep es) (enumerate (Suc n) bs) (bulletStep es (n, b) (hb, he, sc))"
      by simp
    also have "\<dots> = fold (bulletStep es) (enumerate (Suc n) bs)
        (hb @ map (\<lambda>(ei, e). n) ?js, he @ map fst ?js,
         sc + game_pointsPerEnemy * real (length ?js))"
      by (simp only: step)
    finally show ?thesis using True
      by (simp add: Cons.IH tail comp_def case_prod_unfold algebra_simps)
  qed
qed

lemma pairsFrom_0: "pairsFrom 0 bs es = collidingPairs bs es"
  by (simp add: pairsFrom_def collidingPairs_def)

lemma checkBullet_refines:
  "checkBulletEnemyCollisions bs es =
     (map fst (collidingPairs bs es), map snd (collidingPairs bs es),
      game_pointsPerEnemy * real (length (collidingPairs bs es)))"
  using bullet_fold [of es 0 bs "[]" "[]" 0]
  by (simp add: checkBulletEnemyCollisions_def pairsFrom_0)

lemma set_hits_of_bullet:
  "set (map (\<lambda>(ei, e). (n, ei))
         (filter (\<lambda>(ei, e). GameObject.active b \<and> GameObject.active e \<and> checkCollision b e)
                 (enumerate 0 es)))
   = {(i, j). i = n \<and> j < length es \<and> GameObject.active b \<and> GameObject.active (es ! j)
              \<and> checkCollision b (es ! j)}"
  by (auto simp: in_set_enumerate_eq image_iff)

lemma distinct_hits_of_bullet:
  "distinct (map (\<lambda>(ei, e). (n, ei))
         (filter (\<lambda>(ei, e). GameObject.active b \<and> GameObject.active e \<and> checkCollision b e)
                 (enumerate 0 es)))"
proof -
  have "distinct (map fst (filter (\<lambda>(ei, e). GameObject.active b \<and> GameObject.active e \<and> checkCollision b e)
                 (enumerate 0 es)))"
    by (rule distinct_map_filter) simp
  then have "distinct (map (Pair n) (map fst (filter (\<lambda>(ei, e). GameObject.active b \<and> GameObject.active e \<and> checkCollision b e)
                 (enumerate 0 es))))"
    by (simp add: distinct_map inj_on_def del: map_map)
  then show ?thesis by (simp add: comp_def case_prod_unfold)
qed

lemma pairsFrom_Cons:
  "pairsFrom n (b # bs) es =
      map (\<lambda>(ei, e). (n, ei))
                   (filter (\<lambda>(ei, e). GameObject.active b \<and> GameObject.active e \<and> checkCollision b e)
                           (enumerate 0 es)) @ pairsFrom (Suc n) bs es"
  by (simp add: pairsFrom_def)

lemma nth_Cons_shift:
  "n \<le> i \<Longrightarrow> (b # bs) ! (i - n) = (if i = n then b else bs ! (i - Suc n))"
  by (cases "i - n") (auto simp: nth_Cons, metis Suc_diff_Suc diff_Suc_1 le_neq_implies_less less_or_eq_imp_le not_less zero_less_diff Zero_not_Suc diff_is_0_eq)

lemma set_pairsFrom:
  "set (pairsFrom n bs es) =
     {(i, j). n \<le> i \<and> i < n + length bs \<and> j < length es \<and>
              GameObject.active (bs ! (i - n)) \<and> GameObject.active (es ! j) \<and>
              checkCollision (bs ! (i - n)) (es ! j)}"
proof (induction bs arbitrary: n)
  case Nil
  show ?case by (simp add: pairsFrom_def)
next
  case (Cons b bs)
  show ?case
    unfolding pairsFrom_Cons set_append set_hits_of_bullet Cons.IH
    by (auto simp: nth_Cons_shift split: if_splits)
qed

lemma distinct_pairsFrom: "distinct (pairsFrom n bs es)"
proof (induction bs arbitrary: n)
  case Nil
  show ?case by (simp add: pairsFrom_def)
next
  case (Cons b bs)
  have disj: "set (map (\<lambda>(ei, e). (n, ei))
         (filter (\<lambda>(ei, e). GameObject.active b \<and> GameObject.active e \<and> checkCollision b e)
                 (enumerate 0 es))) \<inter> set (pairsFrom (Suc n) bs es) = {}"
    unfolding set_hits_of_bullet set_pairsFrom by auto
  show ?case
    unfolding pairsFrom_Cons distinct_append
    by (intro conjI distinct_hits_of_bullet Cons.IH disj)
qed

lemma count_hits_of_bullet:
  "count_list (map fst (map (\<lambda>(ei, e). (n, ei))
         (filter (\<lambda>(ei, e). GameObject.active b \<and> GameObject.active e \<and> checkCollision b e)
                 (enumerate m es)))) i
   = (if i = n \<and> GameObject.active b
      then length (filter (\<lambda>e. GameObject.active e \<and> checkCollision b e) es) else 0)"
  by (induction es arbitrary: m) auto

lemma count_pairsFrom:
  "count_list (map fst (pairsFrom n bs es)) i =
     (if n \<le> i \<and> i < n + length bs \<and> GameObject.active (bs ! (i - n))
      then length (filter (\<lambda>e. GameObject.active e \<and> checkCollision (bs ! (i - n)) e) es)
      else 0)"
proof (induction bs arbitrary: n)
  case Nil
  show ?case by (auto simp: pairsFrom_def)
next
  case (Cons b bs)
  show ?case
    unfolding pairsFrom_Cons map_append count_list_append count_hits_of_bullet Cons.IH
    by (auto simp: nth_Cons_shift)
qed

text \<open>
  C10. \<^verbatim>\<open>checkBulletEnemyCollisions\<close> returns one entry of \<open>hitBullets\<close> and of
  \<open>hitEnemies\<close> per colliding pair of an active bullet and an active enemy, and a score of
  \<open>pointsPerEnemy\<close> times the number of such pairs: the list of pairs has no repetition
  and holds exactly the index pairs that collide. An active bullet's index occurs in
  \<open>hitBullets\<close> as often as there are active enemies it overlaps; an inactive bullet's
  index does not occur.
\<close>

theorem checkBulletEnemyCollisions_pairs:
  "checkBulletEnemyCollisions bs es =
     (map fst (collidingPairs bs es), map snd (collidingPairs bs es),
      game_pointsPerEnemy * real (length (collidingPairs bs es)))
   \<and> distinct (collidingPairs bs es)
   \<and> set (collidingPairs bs es) =
       {(i, j). i < length bs \<and> j < length es \<and>
                GameObject.active (bs ! i) \<and> GameObject.active (es ! j) \<and>
                checkCollision (bs ! i) (es ! j)}
   \<and> (\<forall>i < length bs.
        count_list (fst (checkBulletEnemyCollisions bs es)) i =
          (if GameObject.active (bs ! i)
           then length (filter (\<lambda>e. GameObject.active e \<and> checkCollision (bs ! i) e) es)
           else 0))"
proof -
  have "set (pairsFrom 0 bs es) =
       {(i, j). i < length bs \<and> j < length es \<and>
                GameObject.active (bs ! i) \<and> GameObject.active (es ! j) \<and>
                checkCollision (bs ! i) (es ! j)}"
    unfolding set_pairsFrom by simp
  moreover have "\<forall>i < length bs.
        count_list (map fst (pairsFrom 0 bs es)) i =
          (if GameObject.active (bs ! i)
           then length (filter (\<lambda>e. GameObject.active e \<and> checkCollision (bs ! i) e) es)
           else 0)"
    unfolding count_pairsFrom by simp
  ultimately show ?thesis
    using checkBullet_refines [of bs es] distinct_pairsFrom [of 0 bs es]
    by (simp add: pairsFrom_0)
qed

theorem checkBulletEnemyCollisions_pairs_witness:
  "(1::nat) < length
      [\<lparr> x = 60, y = 60, width = 4, height = 10, GameObject.active = False, Bullet.speed = 7 \<rparr>,
       \<lparr> x = 60, y = 60, width = 4, height = 10, GameObject.active = True, Bullet.speed = 7 \<rparr>]
   \<and> checkBulletEnemyCollisions
      [\<lparr> x = 60, y = 60, width = 4, height = 10, GameObject.active = False, Bullet.speed = 7 \<rparr>,
       \<lparr> x = 60, y = 60, width = 4, height = 10, GameObject.active = True, Bullet.speed = 7 \<rparr>]
      [createEnemy 0 0, (createEnemy 0 0)\<lparr> GameObject.active := False \<rparr>, createEnemy 0 0,
       createEnemy 4 9]
     = ([1, 1], [0, 2], 20)
   \<and> collidingPairs
      [\<lparr> x = 60, y = 60, width = 4, height = 10, GameObject.active = False, Bullet.speed = 7 \<rparr>,
       \<lparr> x = 60, y = 60, width = 4, height = 10, GameObject.active = True, Bullet.speed = 7 \<rparr>]
      [createEnemy 0 0, (createEnemy 0 0)\<lparr> GameObject.active := False \<rparr>, createEnemy 0 0,
       createEnemy 4 9]
     = [(1, 0), (1, 2)]"
  using checkBulletEnemyCollisions_pairs
      [of "[\<lparr> x = 60, y = 60, width = 4, height = 10, GameObject.active = False, Bullet.speed = 7 \<rparr>,
       \<lparr> x = 60, y = 60, width = 4, height = 10, GameObject.active = True, Bullet.speed = 7 \<rparr>]"
      "[createEnemy 0 0, (createEnemy 0 0)\<lparr> GameObject.active := False \<rparr>, createEnemy 0 0,
       createEnemy 4 9]"]
  by (simp add: createEnemy_def enemies_width_def enemies_height_def
        enemies_speed_def enemies_spacing_horizontal_def enemies_spacing_vertical_def
        enemies_startPosition_x_def enemies_startPosition_y_def game_pointsPerEnemy_def
        collidingPairs_def checkCollision_def enumerate_eq_zip upt_rec)

section \<open>Object pool: capacity, release, invariant\<close>

lemma pop_empty: "pool P = [] \<Longrightarrow> pop P = (None, P)"
  by (simp add: pop_def)

lemma get_None_iff:
  "fst (ObjectPool_get P) = None \<longleftrightarrow>
     pool P = [] \<and> length (ObjectPool.active P) + length (pool P) \<ge> maxSize P"
  by (auto simp: ObjectPool_get_def pop_def construct_def Let_def split: prod.splits option.splits if_splits)

lemma get_create:
  "pool P = [] \<Longrightarrow> length (ObjectPool.active P) < maxSize P \<Longrightarrow>
   ObjectPool_get P =
     (Some (fresh P),
      P\<lparr> heap := (heap P)(fresh P := createFn P), fresh := Suc (fresh P),
         ObjectPool.active := ObjectPool.active P @ [fresh P] \<rparr>)"
  by (simp add: ObjectPool_get_def pop_def construct_def Let_def)

lemma get_exhausted:
  "pool P = [] \<Longrightarrow> maxSize P \<le> length (ObjectPool.active P) \<Longrightarrow> ObjectPool_get P = (None, P)"
  by (simp add: ObjectPool_get_def pop_def construct_def Let_def)

lemma getMany_fill:
  "pool P = [] \<Longrightarrow> length (ObjectPool.active P) + k = maxSize P \<Longrightarrow>
   map (\<lambda>r. r \<noteq> None) (fst (getMany (Suc k) P)) = replicate k True @ [False]"
proof (induction k arbitrary: P)
  case 0
  then show ?case by (simp add: get_exhausted)
next
  case (Suc k)
  let ?P1 = "P\<lparr> heap := (heap P)(fresh P := createFn P), fresh := Suc (fresh P),
         ObjectPool.active := ObjectPool.active P @ [fresh P] \<rparr>"
  have g: "ObjectPool_get P = (Some (fresh P), ?P1)"
    using Suc.prems by (intro get_create) auto
  have "map (\<lambda>r. r \<noteq> None) (fst (getMany (Suc k) ?P1)) = replicate k True @ [False]"
    using Suc.prems by (intro Suc.IH) auto
  then show ?case
    by (simp add: g split: prod.splits)
qed

lemma prepopulate_0: "prepopulate 0 P = P" by simp

lemma new_empty:
  "ObjectPool_new mk 0 N =
     \<lparr> pool = [], ObjectPool.active = [], createFn = mk, maxSize = N, heap = (\<lambda>_. mk), fresh = 0 \<rparr>"
  by (simp add: ObjectPool_new_def)

text \<open>
  C5. A pool constructed with \<open>maxSize = N\<close> and no pre-populated instance answers the
  first \<open>N\<close> calls of \<^verbatim>\<open>get\<close> with an instance and the next one with \<^verbatim>\<open>null\<close>; and for any
  pool, \<^verbatim>\<open>get\<close> returns \<^verbatim>\<open>null\<close> exactly when the free list is empty and the number of
  active plus free instances has reached \<open>maxSize\<close>.
\<close>

theorem ObjectPool_get_capacity:
  "map (\<lambda>r. r \<noteq> None) (fst (getMany (Suc N) (ObjectPool_new mk 0 N))) = replicate N True @ [False]
   \<and> (fst (ObjectPool_get P) = None \<longleftrightarrow>
        pool P = [] \<and> length (ObjectPool.active P) + length (pool P) \<ge> maxSize P)"
  using getMany_fill [of "ObjectPool_new mk 0 N" N] get_None_iff [of P]
  by (simp add: new_empty)

lemma indexOf_None_iff: "indexOf xs a = None \<longleftrightarrow> a \<notin> set xs"
  by (induction xs) auto

lemma indexOf_Some:
  "indexOf xs a = Some i \<Longrightarrow> i < length xs \<and> xs ! i = a \<and> a \<notin> set (take i xs)"
proof (induction xs arbitrary: i)
  case Nil
  then show ?case by simp
next
  case (Cons b bs)
  then show ?case
    by (cases "b = a") (auto split: if_splits)
qed

lemma length_splice1: "i < length xs \<Longrightarrow> Suc (length (splice1 i xs)) = length xs"
  by (simp add: splice1_def)

lemma mset_splice1: "i < length xs \<Longrightarrow> add_mset (xs ! i) (mset (splice1 i xs)) = mset xs"
proof -
  assume "i < length xs"
  then have "xs = take i xs @ xs ! i # drop (Suc i) xs"
    by (rule id_take_nth_drop)
  then have "mset xs = mset (take i xs @ xs ! i # drop (Suc i) xs)"
    by simp
  then show ?thesis
    by (simp add: splice1_def)
qed

lemma splice1_first_occurrence:
  assumes "distinct xs" and "i < length xs"
  shows "xs ! i \<notin> set (splice1 i xs)"
proof -
  have "xs = take i xs @ xs ! i # drop (Suc i) xs"
    using assms(2) by (rule id_take_nth_drop)
  then have "distinct (take i xs @ xs ! i # drop (Suc i) xs)"
    using assms(1) by simp
  then show ?thesis
    by (auto simp: splice1_def)
qed

lemma release_untracked:
  "obj \<notin> set (ObjectPool.active P) \<Longrightarrow> ObjectPool_release T P obj = P"
  by (simp add: ObjectPool_release_def indexOf_None_iff [THEN iffD2])

lemma release_active_after:
  assumes "distinct (ObjectPool.active P)"
  shows "obj \<notin> set (ObjectPool.active (ObjectPool_release T P obj))"
proof (cases "indexOf (ObjectPool.active P) obj")
  case None
  then have "obj \<notin> set (ObjectPool.active P)"
    by (simp add: indexOf_None_iff)
  then show ?thesis
    by (simp add: ObjectPool_release_def None)
next
  case (Some i)
  from indexOf_Some [OF Some] have "i < length (ObjectPool.active P)" "ObjectPool.active P ! i = obj"
    by auto
  with splice1_first_occurrence [OF assms, of i] show ?thesis
    by (simp add: ObjectPool_release_def Some resetAndPush_def)
qed

text \<open>
  C8. Releasing an object that is not in the active list changes nothing: the pool, its
  two lists and the heap stay as they were. Hence, in a pool whose active list holds every
  object once, releasing the same object a second time has no further effect.
\<close>

theorem release_untracked_noop:
  "(obj \<notin> set (ObjectPool.active P) \<longrightarrow> ObjectPool_release T P obj = P)
   \<and> (distinct (ObjectPool.active P) \<longrightarrow>
        ObjectPool_release T (ObjectPool_release T P obj) obj = ObjectPool_release T P obj)"
  using release_untracked [of obj P T]
        release_untracked [of obj "ObjectPool_release T P obj" T] release_active_after [of P obj T]
  by blast

theorem release_untracked_noop_witness:
  "5 \<notin> set (ObjectPool.active
       \<lparr> pool = [1], ObjectPool.active = [0, 2], createFn = PooledBullet_new, maxSize = 3,
         heap = (\<lambda>_. PooledBullet_new), fresh = 3 \<rparr>)
   \<and> ObjectPool_release PooledBullet
       \<lparr> pool = [1], ObjectPool.active = [0, 2], createFn = PooledBullet_new, maxSize = 3,
         heap = (\<lambda>_. PooledBullet_new), fresh = 3 \<rparr> 5
     = \<lparr> pool = [1], ObjectPool.active = [0, 2], createFn = PooledBullet_new, maxSize = 3,
         heap = (\<lambda>_. PooledBullet_new), fresh = 3 \<rparr>
   \<and> distinct (ObjectPool.active
       \<lparr> pool = [1], ObjectPool.active = [0, 2], createFn = PooledBullet_new, maxSize = 3,
         heap = (\<lambda>_. PooledBullet_new), fresh = 3 \<rparr>)
   \<and> ObjectPool_release PooledBullet
       (ObjectPool_release PooledBullet
         \<lparr> pool = [1], ObjectPool.active = [0, 2], createFn = PooledBullet_new, maxSize = 3,
           heap = (\<lambda>_. PooledBullet_new), fresh = 3 \<rparr> 2) 2
     = ObjectPool_release PooledBullet
         \<lparr> pool = [1], ObjectPool.active = [0, 2], createFn = PooledBullet_new, maxSize = 3,
           heap = (\<lambda>_. PooledBullet_new), fresh = 3 \<rparr> 2"
  using release_untracked_noop [of 5 "\<lparr> pool = [1], ObjectPool.active = [0, 2],
           createFn = PooledBullet_new, maxSize = 3, heap = (\<lambda>_. PooledBullet_new), fresh = 3 \<rparr>"
           PooledBullet]
        release_untracked_noop [of 2 "\<lparr> pool = [1], ObjectPool.active = [0, 2],
           createFn = PooledBullet_new, maxSize = 3, heap = (\<lambda>_. PooledBullet_new), fresh = 3 \<rparr>"
           PooledBullet]
  by simp

lemma resetAndPush_fields [simp]:
  "pool (resetAndPush T obj P) = pool P @ [obj]"
  "ObjectPool.active (resetAndPush T obj P) = ObjectPool.active P"
  "maxSize (resetAndPush T obj P) = maxSize P"
  "fresh (resetAndPush T obj P) = fresh P"
  by (simp_all add: resetAndPush_def)

lemma fold_resetAndPush_fields:
  "pool (fold (resetAndPush T) xs P) = pool P @ xs
   \<and> ObjectPool.active (fold (resetAndPush T) xs P) = ObjectPool.active P
   \<and> maxSize (fold (resetAndPush T) xs P) = maxSize P
   \<and> fresh (fold (resetAndPush T) xs P) = fresh P"
  by (induction xs arbitrary: P) auto

lemma releaseAll_fields:
  "pool (ObjectPool_releaseAll T P) = pool P @ ObjectPool.active P"
  "ObjectPool.active (ObjectPool_releaseAll T P) = []"
  "maxSize (ObjectPool_releaseAll T P) = maxSize P"
  "fresh (ObjectPool_releaseAll T P) = fresh P"
  by (simp_all add: ObjectPool_releaseAll_def fold_resetAndPush_fields)

lemma updateLoop_conserves:
  "i \<le> length (ObjectPool.active P) \<Longrightarrow>
   mset (pool (updateLoop T i P)) + mset (ObjectPool.active (updateLoop T i P))
     = mset (pool P) + mset (ObjectPool.active P)
   \<and> maxSize (updateLoop T i P) = maxSize P
   \<and> fresh (updateLoop T i P) = fresh P"
proof (induction i arbitrary: P)
  case 0
  show ?case by simp
next
  case (Suc i)
  let ?obj = "ObjectPool.active P ! i"
  let ?P1 = "resetAndPush T ?obj (P\<lparr> ObjectPool.active := splice1 i (ObjectPool.active P) \<rparr>)"
  from Suc.prems have lt: "i < length (ObjectPool.active P)" by simp
  show ?case
  proof (cases "isActive T (heap P ?obj)")
    case True
    with Suc.IH [of P] lt show ?thesis by (simp add: Let_def)
  next
    case False
    have "i \<le> length (ObjectPool.active ?P1)"
      using length_splice1 [OF lt] lt by simp
    from Suc.IH [OF this] mset_splice1 [OF lt] False show ?thesis
      by (simp add: Let_def)
  qed
qed

lemma update_conserves:
  "mset (pool (ObjectPool_update T P)) + mset (ObjectPool.active (ObjectPool_update T P))
     = mset (pool P) + mset (ObjectPool.active P)
   \<and> maxSize (ObjectPool_update T P) = maxSize P
   \<and> fresh (ObjectPool_update T P) = fresh P"
  unfolding ObjectPool_update_def by (rule updateLoop_conserves) simp

lemma release_conserves:
  "mset (pool (ObjectPool_release T P obj)) + mset (ObjectPool.active (ObjectPool_release T P obj))
     = mset (pool P) + mset (ObjectPool.active P)
   \<and> maxSize (ObjectPool_release T P obj) = maxSize P
   \<and> fresh (ObjectPool_release T P obj) = fresh P"
proof (cases "indexOf (ObjectPool.active P) obj")
  case None
  then show ?thesis by (simp add: ObjectPool_release_def)
next
  case (Some i)
  from indexOf_Some [OF Some] have "i < length (ObjectPool.active P)" "ObjectPool.active P ! i = obj"
    by auto
  with mset_splice1 [of i "ObjectPool.active P"] show ?thesis
    by (auto simp: ObjectPool_release_def Some)
qed

lemma releaseAll_conserves:
  "mset (pool (ObjectPool_releaseAll T P)) + mset (ObjectPool.active (ObjectPool_releaseAll T P))
     = mset (pool P) + mset (ObjectPool.active P)
   \<and> maxSize (ObjectPool_releaseAll T P) = maxSize P
   \<and> fresh (ObjectPool_releaseAll T P) = fresh P"
  by (simp add: releaseAll_fields)

lemma conserves_capacity:
  assumes "mset (pool Q) + mset (ObjectPool.active Q) = mset (pool P) + mset (ObjectPool.active P)"
    and "maxSize Q = maxSize P" and "withinCapacity P"
  shows "withinCapacity Q"
proof -
  have "size (mset (pool Q) + mset (ObjectPool.active Q)) = size (mset (pool P) + mset (ObjectPool.active P))"
    using assms(1) by simp
  then show ?thesis using assms(2,3) by (simp add: withinCapacity_def)
qed

lemma get_capacity: "withinCapacity P \<Longrightarrow> withinCapacity (snd (ObjectPool_get P))"
proof (cases "pool P = []")
  case True
  assume "withinCapacity P"
  with True show ?thesis
    by (cases "length (ObjectPool.active P) < maxSize P")
       (simp_all add: get_create get_exhausted withinCapacity_def)
next
  case False
  then obtain xs a where "pool P = xs @ [a]"
    by (cases "pool P" rule: rev_cases) auto
  moreover assume "withinCapacity P"
  ultimately show ?thesis
    by (simp add: withinCapacity_def ObjectPool_get_def pop_def Let_def)
qed

lemma applyPoolOp_capacity: "withinCapacity P \<Longrightarrow> withinCapacity (applyPoolOp T op P)"
proof (cases op)
  case Get
  assume "withinCapacity P"
  then show ?thesis using Get by (simp add: get_capacity)
next
  case (Release obj)
  assume "withinCapacity P"
  then show ?thesis using Release release_conserves [of T P obj]
    by (auto intro: conserves_capacity)
next
  case ReleaseAll
  assume "withinCapacity P"
  then show ?thesis using ReleaseAll releaseAll_conserves [of T P]
    by (auto intro: conserves_capacity)
next
  case Update
  assume "withinCapacity P"
  then show ?thesis using Update update_conserves [of T P]
    by (auto intro: conserves_capacity)
qed

lemma prepopulate_fields:
  "length (pool (prepopulate n P)) = length (pool P) + n
   \<and> ObjectPool.active (prepopulate n P) = ObjectPool.active P
   \<and> maxSize (prepopulate n P) = maxSize P"
  by (induction n arbitrary: P) (auto simp: construct_def)

lemma new_capacity: "initialSize \<le> maxSz \<Longrightarrow> withinCapacity (ObjectPool_new mk initialSize maxSz)"
  by (simp add: withinCapacity_def ObjectPool_new_def prepopulate_fields)

lemma run_capacity: "withinCapacity P \<Longrightarrow> withinCapacity (fold (applyPoolOp T) ops P)"
  by (induction ops arbitrary: P) (auto simp: applyPoolOp_capacity)

text \<open>
  C9. A pool constructed with \<open>initialSize \<le> maxSize\<close> holds at most \<open>maxSize\<close> instances,
  free and active together, and so it does after any run of \<^verbatim>\<open>get\<close>, \<^verbatim>\<open>release\<close>,
  \<^verbatim>\<open>releaseAll\<close> and \<^verbatim>\<open>update\<close>; each of these calls preserves the bound; and \<^verbatim>\<open>release\<close>,
  \<^verbatim>\<open>releaseAll\<close> and \<^verbatim>\<open>update\<close> construct nothing and keep the instances of the two lists,
  taken together, the same.
\<close>

theorem pool_capacity_invariant:
  "(initialSize \<le> maxSz \<longrightarrow>
      withinCapacity (ObjectPool_new mk initialSize maxSz)
      \<and> withinCapacity (fold (applyPoolOp T) ops (ObjectPool_new mk initialSize maxSz)))
   \<and> (withinCapacity P \<longrightarrow> withinCapacity (applyPoolOp T op P))
   \<and> (op \<noteq> Get \<longrightarrow>
        mset (pool (applyPoolOp T op P)) + mset (ObjectPool.active (applyPoolOp T op P))
          = mset (pool P) + mset (ObjectPool.active P)
        \<and> fresh (applyPoolOp T op P) = fresh P)"
proof -
  have "op \<noteq> Get \<longrightarrow>
        mset (pool (applyPoolOp T op P)) + mset (ObjectPool.active (applyPoolOp T op P))
          = mset (pool P) + mset (ObjectPool.active P)
        \<and> fresh (applyPoolOp T op P) = fresh P"
    using release_conserves [of T P] releaseAll_conserves [of T P] update_conserves [of T P]
    by (cases op) simp_all
  then show ?thesis
    using new_capacity [of initialSize maxSz mk] run_capacity [of _ T ops]
      applyPoolOp_capacity [of P T op]
    by blast
qed

theorem pool_capacity_invariant_witness:
  "(1::nat) \<le> 2
   \<and> withinCapacity (ObjectPool_new PooledBullet_new 1 2)
   \<and> withinCapacity (fold (applyPoolOp PooledBullet) [Get, Get, Get, Release 0, Update, ReleaseAll]
                        (ObjectPool_new PooledBullet_new 1 2))
   \<and> withinCapacity \<lparr> pool = [1], ObjectPool.active = [0, 2], createFn = PooledBullet_new,
                       maxSize = 3, heap = (\<lambda>_. PooledBullet_new), fresh = 3 \<rparr>
   \<and> withinCapacity (applyPoolOp PooledBullet Update
        \<lparr> pool = [1], ObjectPool.active = [0, 2], createFn = PooledBullet_new,
          maxSize = 3, heap = (\<lambda>_. PooledBullet_new), fresh = 3 \<rparr>)
   \<and> Update \<noteq> Get
   \<and> mset (pool (applyPoolOp PooledBullet Update
        \<lparr> pool = [1], ObjectPool.active = [0, 2], createFn = PooledBullet_new,
          maxSize = 3, heap = (\<lambda>_. PooledBullet_new), fresh = 3 \<rparr>))
     + mset (ObjectPool.active (applyPoolOp PooledBullet Update
        \<lparr> pool = [1], ObjectPool.active = [0, 2], createFn = PooledBullet_new,
          maxSize = 3, heap = (\<lambda>_. PooledBullet_new), fresh = 3 \<rparr>))
     = {#0, 1, 2#}"
  using pool_capacity_invariant [of 1 2 PooledBullet_new PooledBullet
          "[Get, Get, Get, Release 0, Update, ReleaseAll]"
          "\<lparr> pool = [1], ObjectPool.active = [0, 2], createFn = PooledBullet_new,
             maxSize = 3, heap = (\<lambda>_. PooledBullet_new), fresh = 3 \<rparr>" Update]
  by (simp add: withinCapacity_def)

section \<open>Game state manager: lives and game over\<close>

lemma state_emitEvent [simp]: "state (emitEvent ev M) = state M"
  by (simp add: emitEvent_def split: option.splits)

lemma state_notifyListeners [simp]: "state (notifyListeners M) = state M"
  by (simp add: notifyListeners_def)

lemma state_updateState [simp]: "state (updateState u M) = spread (state M) u"
  by (simp add: updateState_def Let_def)

lemma spread_noUpdates_simps [simp]:
  "set_phase noUpdates = None" "set_score noUpdates = None" "set_lives noUpdates = None"
  "set_level noUpdates = None" "set_enemies noUpdates = None" "set_bullets noUpdates = None"
  "set_particles noUpdates = None" "set_player noUpdates = None"
  "set_lastUpdateTime noUpdates = None" "set_fps noUpdates = None"
  by (simp_all add: noUpdates_def)

lemma state_loseLife:
  "state (loseLife M) =
     (if GameState.lives (state M) \<le> 1
      then (state M)\<lparr> GameState.lives := 0, phase := GameOver \<rparr>
      else (state M)\<lparr> GameState.lives := GameState.lives (state M) - 1,
                       player := startPlayer (player (state M)),
                       enemies := createEnemyGrid, bullets := [], particles := [] \<rparr>)"
  by (simp add: loseLife_def gameOver_def Let_def spread_def max_def)

lemma state_nextLevel:
  "state (nextLevel M) =
     (state M)\<lparr> level := level (state M) + 1, enemies := createEnemyGrid, bullets := [],
                 particles := [], player := startPlayer (player (state M)) \<rparr>"
  by (simp add: nextLevel_def Let_def spread_def)

lemma state_pauseGame:
  "state (pauseGame M) = (if phase (state M) = Playing then (state M)\<lparr> phase := Paused \<rparr> else state M)"
  by (simp add: pauseGame_def spread_def)

lemma state_resumeGame:
  "state (resumeGame M) = (if phase (state M) = Paused then (state M)\<lparr> phase := Playing \<rparr> else state M)"
  by (simp add: resumeGame_def spread_def)

lemma gameOver_absorbing:
  "phase (state M) = GameOver \<Longrightarrow> noRestart op \<Longrightarrow> phase (state (applyOp op M)) = GameOver"
  by (cases op) (simp_all add: state_loseLife state_nextLevel state_pauseGame state_resumeGame)

lemma gameOver_run:
  "phase (state M) = GameOver \<Longrightarrow> \<forall>op \<in> set ops. noRestart op \<Longrightarrow>
   \<forall>M' \<in> set (runStates ops M). phase (state M') = GameOver"
proof (induction ops arbitrary: M)
  case Nil
  show ?case by simp
next
  case (Cons op ops)
  from Cons.prems have step: "phase (state (applyOp op M)) = GameOver"
    by (simp add: gameOver_absorbing)
  from Cons.IH [OF step] Cons.prems(2) step show ?case by simp
qed

lemma gameOver_run_count:
  "phase (state M) = GameOver \<Longrightarrow> \<forall>op \<in> set ops. noRestart op \<Longrightarrow>
   countTransitions GameOver (GameOver # map (\<lambda>M'. phase (state M')) (runStates ops M)) = 0"
  by (induction ops arbitrary: M) (auto simp: gameOver_absorbing)

text \<open>
  C4, as amended. In phase \<open>playing\<close>, \<^verbatim>\<open>loseLife\<close> sets \<open>lives\<close> to
  \<open>max 0 (lives - 1)\<close>: it decrements \<open>lives\<close> by one when there is at least one life.
  When no life is left afterwards the phase becomes \<open>gameOver\<close>; over the call and any later
  \<^verbatim>\<open>pauseGame\<close>, \<^verbatim>\<open>resumeGame\<close>, \<^verbatim>\<open>loseLife\<close> and \<^verbatim>\<open>nextLevel\<close> calls the phase enters
  \<open>gameOver\<close> exactly once and stays there. Otherwise the phase stays \<open>playing\<close>, the player is
  at the start position, the enemies are a new full grid, bullets and particles are empty,
  and score and level are unchanged.
\<close>

theorem loseLife_playing:
  "phase (state M) = Playing \<Longrightarrow>
     GameState.lives (state (loseLife M)) = max 0 (GameState.lives (state M) - 1)
   \<and> (1 \<le> GameState.lives (state M) \<longrightarrow>
           GameState.lives (state (loseLife M)) = GameState.lives (state M) - 1)
   \<and> (GameState.lives (state M) \<le> 1 \<longrightarrow>
           phase (state (loseLife M)) = GameOver
           \<and> ((\<forall>op \<in> set ops. noRestart op) \<longrightarrow>
                (\<forall>M' \<in> set (runStates ops (loseLife M)). phase (state M') = GameOver)
                \<and> countTransitions GameOver
                     (map (\<lambda>M'. phase (state M')) (M # runStates (LoseLife # ops) M)) = 1))
   \<and> (1 < GameState.lives (state M) \<longrightarrow>
           phase (state (loseLife M)) = Playing
           \<and> player (state (loseLife M)) = startPlayer (player (state M))
           \<and> x (player (state (loseLife M))) = player_startX - player_width / 2
           \<and> y (player (state (loseLife M))) = player_startY
           \<and> enemies (state (loseLife M)) = createEnemyGrid
           \<and> bullets (state (loseLife M)) = []
           \<and> particles (state (loseLife M)) = []
           \<and> score (state (loseLife M)) = score (state M)
           \<and> level (state (loseLife M)) = level (state M))"
proof -
  assume playing: "phase (state M) = Playing"
  have lives: "GameState.lives (state (loseLife M)) = max 0 (GameState.lives (state M) - 1)"
    by (simp add: state_loseLife)
  have dec: "1 \<le> GameState.lives (state M) \<longrightarrow>
           GameState.lives (state (loseLife M)) = GameState.lives (state M) - 1"
    by (simp add: state_loseLife)
  have respawn: "1 < GameState.lives (state M) \<longrightarrow>
           phase (state (loseLife M)) = Playing
           \<and> player (state (loseLife M)) = startPlayer (player (state M))
           \<and> x (player (state (loseLife M))) = player_startX - player_width / 2
           \<and> y (player (state (loseLife M))) = player_startY
           \<and> enemies (state (loseLife M)) = createEnemyGrid
           \<and> bullets (state (loseLife M)) = []
           \<and> particles (state (loseLife M)) = []
           \<and> score (state (loseLife M)) = score (state M)
           \<and> level (state (loseLife M)) = level (state M)"
    using playing by (simp add: state_loseLife startPlayer_def)
  have over: "GameState.lives (state M) \<le> 1 \<longrightarrow>
           phase (state (loseLife M)) = GameOver
           \<and> ((\<forall>op \<in> set ops. noRestart op) \<longrightarrow>
                (\<forall>M' \<in> set (runStates ops (loseLife M)). phase (state M') = GameOver)
                \<and> countTransitions GameOver
                     (map (\<lambda>M'. phase (state M')) (M # runStates (LoseLife # ops) M)) = 1)"
  proof (intro impI conjI)
    assume le: "GameState.lives (state M) \<le> 1"
    then show go: "phase (state (loseLife M)) = GameOver"
      by (simp add: state_loseLife)
    assume safe: "\<forall>op \<in> set ops. noRestart op"
    from gameOver_run [OF go safe]
    show "\<forall>M' \<in> set (runStates ops (loseLife M)). phase (state M') = GameOver" .
    from gameOver_run_count [OF go safe] playing go
    show "countTransitions GameOver
            (map (\<lambda>M'. phase (state M')) (M # runStates (LoseLife # ops) M)) = 1"
      by simp
  qed
  from lives dec over respawn show ?thesis by blast
qed

theorem loseLife_playing_witness:
  "phase (state (GameStateManager_new\<lparr> state := createInitialState\<lparr> phase := Playing, GameState.lives := 1 \<rparr> \<rparr>)) = Playing
   \<and> 1 \<le> GameState.lives (state (GameStateManager_new\<lparr> state := createInitialState\<lparr> phase := Playing, GameState.lives := 1 \<rparr> \<rparr>))
   \<and> GameState.lives (state (GameStateManager_new\<lparr> state := createInitialState\<lparr> phase := Playing, GameState.lives := 1 \<rparr> \<rparr>)) \<le> 1
   \<and> noRestart PauseGame \<and> noRestart ResumeGame \<and> noRestart LoseLife \<and> noRestart NextLevel
   \<and> GameState.lives (state (loseLife
        (GameStateManager_new\<lparr> state := createInitialState\<lparr> phase := Playing, GameState.lives := 1 \<rparr> \<rparr>))) = 0
   \<and> phase (state (loseLife
        (GameStateManager_new\<lparr> state := createInitialState\<lparr> phase := Playing, GameState.lives := 1 \<rparr> \<rparr>))) = GameOver
   \<and> countTransitions GameOver
         (map (\<lambda>M'. phase (state M'))
            (GameStateManager_new\<lparr> state := createInitialState\<lparr> phase := Playing, GameState.lives := 1 \<rparr> \<rparr>
             # runStates [LoseLife, PauseGame, ResumeGame, LoseLife, NextLevel]
                 (GameStateManager_new\<lparr> state := createInitialState\<lparr> phase := Playing, GameState.lives := 1 \<rparr> \<rparr>)))
       = 1
   \<and> phase (state (GameStateManager_new\<lparr> state := createInitialState\<lparr> phase := Playing \<rparr> \<rparr>)) = Playing
   \<and> 1 < GameState.lives (state (GameStateManager_new\<lparr> state := createInitialState\<lparr> phase := Playing \<rparr> \<rparr>))
   \<and> GameState.lives (state (loseLife (GameStateManager_new\<lparr> state := createInitialState\<lparr> phase := Playing \<rparr> \<rparr>))) = 2
   \<and> phase (state (loseLife (GameStateManager_new\<lparr> state := createInitialState\<lparr> phase := Playing \<rparr> \<rparr>))) = Playing
   \<and> enemies (state (loseLife (GameStateManager_new\<lparr> state := createInitialState\<lparr> phase := Playing \<rparr> \<rparr>)))
       = createEnemyGrid
   \<and> score (state (loseLife (GameStateManager_new\<lparr> state := createInitialState\<lparr> phase := Playing \<rparr> \<rparr>))) = 0"
  using loseLife_playing
          [of "GameStateManager_new\<lparr> state := createInitialState\<lparr> phase := Playing, GameState.lives := 1 \<rparr> \<rparr>"
              "[PauseGame, ResumeGame, LoseLife, NextLevel]"]
        loseLife_playing
          [of "GameStateManager_new\<lparr> state := createInitialState\<lparr> phase := Playing \<rparr> \<rparr>" "[]"]
  by (simp add: GameStateManager_new_def createInitialState_def game_initialLives_def)

text \<open>
  C4 as stated fails where \<open>lives\<close> is already \<open>0\<close> in phase \<open>playing\<close>: the clamp
  \<^verbatim>\<open>Math.max(0, lives - 1)\<close> leaves \<open>lives\<close> at \<open>0\<close>, which is not one less.
\<close>

theorem loseLife_counterexample:
  "phase (state (GameStateManager_new\<lparr> state := createInitialState\<lparr> phase := Playing, GameState.lives := 0 \<rparr> \<rparr>)) = Playing
   \<and> GameState.lives (state (loseLife
        (GameStateManager_new\<lparr> state := createInitialState\<lparr> phase := Playing, GameState.lives := 0 \<rparr> \<rparr>)))
     \<noteq> GameState.lives (state
        (GameStateManager_new\<lparr> state := createInitialState\<lparr> phase := Playing, GameState.lives := 0 \<rparr> \<rparr>)) - 1"
  by (simp add: state_loseLife GameStateManager_new_def createInitialState_def)

section \<open>Game state manager: phase-change events\<close>

text \<open>
  Every change of phase made through \<^verbatim>\<open>updateState\<close> calls the handlers registered under
  the new phase's name with the pair of the previous and the current phase.
\<close>

lemma updateState_emits_phase_change:
  assumes "phase (spread (state M) u) \<noteq> phase (state M)"
    and "eventHandlers M (phaseName (phase (spread (state M) u))) = Some hs"
  shows "calls (updateState u M) =
           calls M
           @ map (\<lambda>h. HandlerCall h \<lparr> etype = phaseName (phase (spread (state M) u)),
                                       edata = PhaseChangeData (phase (state M))
                                                 (phase (spread (state M) u)) \<rparr>) hs
           @ map (\<lambda>l. ListenerCall l (spread (state M) u)) (listeners M)"
  using assms by (simp add: updateState_def Let_def emitEvent_def notifyListeners_def)

text \<open>
  C3. With a handler registered for \<open>playing\<close>, \<^verbatim>\<open>startGame\<close> takes the manager from phase
  \<open>start\<close> to phase \<open>playing\<close> and calls no handler: it assigns the state without going
  through \<^verbatim>\<open>updateState\<close>. The same handler is called, with the pair (paused, playing),
  when \<^verbatim>\<open>resumeGame\<close> enters \<open>playing\<close>.
\<close>

theorem startGame_emits_no_phase_event:
  "phase (state (addEventListener ''playing'' 7 GameStateManager_new)) = Start
   \<and> eventHandlers (addEventListener ''playing'' 7 GameStateManager_new) ''playing'' = Some [7]
   \<and> phase (state (startGame (addEventListener ''playing'' 7 GameStateManager_new))) = Playing
   \<and> calls (startGame (addEventListener ''playing'' 7 GameStateManager_new)) = []
   \<and> calls (resumeGame (pauseGame (startGame (addEventListener ''playing'' 7 GameStateManager_new))))
       = [HandlerCall 7 \<lparr> etype = ''playing'', edata = PhaseChangeData Paused Playing \<rparr>]"
  by (simp add: addEventListener_def GameStateManager_new_def startGame_def notifyListeners_def
        createInitialState_def resumeGame_def pauseGame_def updateState_def emitEvent_def
        spread_def Let_def)

section \<open>Game state manager: score\<close>

lemma state_addEventListener [simp]: "state (addEventListener ty h M) = state M"
  by (simp add: addEventListener_def Let_def)

lemma score_step:
  "scoreSafe op \<Longrightarrow> score (state M) \<le> score (state (applyOp op M))"
  by (cases op)
     (auto simp: spread_def state_loseLife state_nextLevel state_pauseGame state_resumeGame
        gameOver_def addScore_def updateFPS_def updateLastUpdateTime_def subscribe_def Let_def
        split: option.splits)

lemma score_run_sorted:
  "\<forall>op \<in> set ops. scoreSafe op \<Longrightarrow>
   sorted (map (\<lambda>M'. score (state M')) (M # runStates ops M))"
proof (induction ops arbitrary: M)
  case Nil
  show ?case by simp
next
  case (Cons op ops)
  from Cons.prems have "score (state M) \<le> score (state (applyOp op M))"
    by (simp add: score_step)
  moreover from Cons.prems
  have "sorted (map (\<lambda>M'. score (state M')) (applyOp op M # runStates ops (applyOp op M)))"
    by (intro Cons.IH) simp
  ultimately show ?case by (fastforce intro: order_trans)
qed

text \<open>
  C6, as amended. \<^verbatim>\<open>addScore(points)\<close> adds \<open>points\<close> to the score, and keeps a
  non-negative score non-negative when \<open>points\<close> is not negative. Over a run of operations
  that contains no \<^verbatim>\<open>startGame\<close>, no \<^verbatim>\<open>reset\<close>, no \<^verbatim>\<open>updateState\<close> that sets the score and
  no \<^verbatim>\<open>addScore\<close> of a negative number, the score never decreases.
\<close>

theorem score_nondecreasing:
  "score (state (addScore points M)) = score (state M) + points
   \<and> (0 \<le> points \<and> 0 \<le> score (state M) \<longrightarrow> 0 \<le> score (state (addScore points M)))
   \<and> ((\<forall>op \<in> set ops. scoreSafe op) \<longrightarrow>
        sorted (map (\<lambda>M'. score (state M')) (M # runStates ops M)))"
  using score_run_sorted [of ops M]
  by (simp add: addScore_def spread_def)

theorem score_nondecreasing_witness:
  "(0::real) \<le> 10 \<and> 0 \<le> score (state GameStateManager_new)
   \<and> score (state (addScore 10 GameStateManager_new)) = 10
   \<and> scoreSafe (AddScore 10) \<and> scoreSafe PauseGame \<and> scoreSafe LoseLife \<and> scoreSafe (AddScore 0)
   \<and> scoreSafe GameOverOp \<and> scoreSafe (UpdateFPS 60)
   \<and> sorted (map (\<lambda>M'. score (state M'))
        (GameStateManager_new
         # runStates [AddScore 10, PauseGame, LoseLife, AddScore 0, GameOverOp, UpdateFPS 60]
             GameStateManager_new))"
  using score_nondecreasing [of 10 GameStateManager_new
          "[AddScore 10, PauseGame, LoseLife, AddScore 0, GameOverOp, UpdateFPS 60]"]
  by (simp add: GameStateManager_new_def createInitialState_def)

text \<open>
  C6 as stated fails for negative points, and for an \<^verbatim>\<open>updateState\<close> that writes the
  score: \<^verbatim>\<open>addScore(-10)\<close> on a new manager leaves the score at \<open>-10\<close>.
\<close>

theorem score_counterexample:
  "score (state (applyOp (AddScore (- 10)) GameStateManager_new)) < score (state GameStateManager_new)
   \<and> score (state (applyOp (AddScore (- 10)) GameStateManager_new)) < 0
   \<and> score (state (applyOp (UpdateState (noUpdates\<lparr> set_score := Some (- 1) \<rparr>)) GameStateManager_new))
       < score (state GameStateManager_new)"
  by (simp add: addScore_def spread_def GameStateManager_new_def createInitialState_def)

section \<open>Fixed-timestep loop: catch-up cap and interpolation\<close>

text \<open>
  The recursion equation of the \<^verbatim>\<open>while\<close> loop is applied by hand, one iteration at a
  time, through the three lemmas that follow.
\<close>

declare fixedUpdates.simps [simp del]

lemma targetFrameTime_pos: "0 < targetFrameTime"
  by (simp add: targetFrameTime_def game_targetFrameTime_def)

lemma fixedUpdates_stop:
  "\<not> (lagRef L \<ge> targetFrameTime \<and> n < maxUpdates) \<Longrightarrow> fixedUpdates cb t n L = L"
  by (subst fixedUpdates.simps) auto

lemma fixedUpdates_throw:
  "lagRef L \<ge> targetFrameTime \<Longrightarrow> n < maxUpdates \<Longrightarrow>
   fst (onUpdate cb targetFrameTime t (world L)) \<Longrightarrow>
   fixedUpdates cb t n L =
     L\<lparr> world := snd (onUpdate cb targetFrameTime t (world L)),
        invoked := invoked L @ [OnUpdate targetFrameTime t],
        lagRef := 0 \<rparr>"
  by (subst fixedUpdates.simps) simp

lemma fixedUpdates_step:
  "lagRef L \<ge> targetFrameTime \<Longrightarrow> n < maxUpdates \<Longrightarrow>
   \<not> fst (onUpdate cb targetFrameTime t (world L)) \<Longrightarrow>
   fixedUpdates cb t n L =
     fixedUpdates cb t (Suc n)
       (L\<lparr> world := snd (onUpdate cb targetFrameTime t (world L)),
           invoked := invoked L @ [OnUpdate targetFrameTime t],
           lagRef := lagRef L - targetFrameTime \<rparr>)"
  by (subst fixedUpdates.simps) simp

lemma fixedUpdates_shape:
  "n \<le> maxUpdates \<Longrightarrow>
   \<exists>k. n + k \<le> maxUpdates \<and>
       invoked (fixedUpdates cb t n L) = invoked L @ replicate k (OnUpdate targetFrameTime t)"
proof (induction cb t n L rule: fixedUpdates.induct)
  case (1 cb t n L)
  show ?case
  proof (cases "lagRef L \<ge> targetFrameTime \<and> n < maxUpdates")
    case False
    then have "fixedUpdates cb t n L = L" by (rule fixedUpdates_stop)
    with "1.prems" show ?thesis by (intro exI [of _ 0]) simp
  next
    case True
    show ?thesis
    proof (cases "fst (onUpdate cb targetFrameTime t (world L))")
      case thr: True
      with True have "invoked (fixedUpdates cb t n L) = invoked L @ replicate 1 (OnUpdate targetFrameTime t)"
        by (simp add: fixedUpdates_throw)
      moreover from True have "n + 1 \<le> maxUpdates" by simp
      ultimately show ?thesis by blast
    next
      case nothr: False
      let ?L1 = "L\<lparr> world := snd (onUpdate cb targetFrameTime t (world L)),
           invoked := invoked L @ [OnUpdate targetFrameTime t],
           lagRef := lagRef L - targetFrameTime \<rparr>"
      from True have "Suc n \<le> maxUpdates" by simp
      from "1.IH" [OF True nothr this]
      obtain k where k: "Suc n + k \<le> maxUpdates"
        "invoked (fixedUpdates cb t (Suc n) ?L1) = invoked ?L1 @ replicate k (OnUpdate targetFrameTime t)"
        by blast
      from True nothr have "fixedUpdates cb t n L = fixedUpdates cb t (Suc n) ?L1"
        by (simp add: fixedUpdates_step)
      with k have "invoked (fixedUpdates cb t n L) = invoked L @ replicate (Suc k) (OnUpdate targetFrameTime t)"
        by simp
      moreover from k have "n + Suc k \<le> maxUpdates" by simp
      ultimately show ?thesis by blast
    qed
  qed
qed

lemma fixedUpdates_saturated:
  "n + r = maxUpdates \<Longrightarrow> \<forall>dt t w. \<not> fst (onUpdate cb dt t w) \<Longrightarrow>
   lagRef L \<ge> real r * targetFrameTime \<Longrightarrow>
   invoked (fixedUpdates cb t n L) = invoked L @ replicate r (OnUpdate targetFrameTime t)
   \<and> lagRef (fixedUpdates cb t n L) = lagRef L - real r * targetFrameTime"
proof (induction cb t n L arbitrary: r rule: fixedUpdates.induct)
  case (1 cb t n L)
  show ?case
  proof (cases r)
    case 0
    with "1.prems"(1) have "\<not> n < maxUpdates" by simp
    then have "fixedUpdates cb t n L = L" by (simp add: fixedUpdates_stop)
    with 0 show ?thesis by simp
  next
    case (Suc r')
    with "1.prems"(1) have lt: "n < maxUpdates" and rest: "Suc n + r' = maxUpdates"
      by simp_all
    let ?L1 = "L\<lparr> world := snd (onUpdate cb targetFrameTime t (world L)),
           invoked := invoked L @ [OnUpdate targetFrameTime t],
           lagRef := lagRef L - targetFrameTime \<rparr>"
    have r: "real r * targetFrameTime = targetFrameTime + real r' * targetFrameTime"
      using Suc by (simp add: algebra_simps)
    have "0 \<le> real r' * targetFrameTime"
      using targetFrameTime_pos by simp
    with "1.prems"(3) r have enough: "lagRef L \<ge> targetFrameTime" by linarith
    have nothr: "\<not> fst (onUpdate cb targetFrameTime t (world L))"
      using "1.prems"(2) by simp
    have step: "fixedUpdates cb t n L = fixedUpdates cb t (Suc n) ?L1"
      using enough lt nothr by (rule fixedUpdates_step)
    have "lagRef ?L1 \<ge> real r' * targetFrameTime"
      using "1.prems"(3) r by simp
    from "1.IH" [OF conjI [OF enough lt] nothr rest "1.prems"(2) this]
    show ?thesis
      unfolding step Suc by (simp add: algebra_simps)
  qed
qed

lemma fixedUpdates_remainder:
  "n + r = maxUpdates \<Longrightarrow> 0 \<le> lagRef L \<Longrightarrow>
   lagRef L < real (Suc r) * targetFrameTime \<Longrightarrow>
   0 \<le> lagRef (fixedUpdates cb t n L) \<and> lagRef (fixedUpdates cb t n L) < targetFrameTime"
proof (induction cb t n L arbitrary: r rule: fixedUpdates.induct)
  case (1 cb t n L)
  show ?case
  proof (cases "lagRef L \<ge> targetFrameTime")
    case False
    then have "fixedUpdates cb t n L = L" by (simp add: fixedUpdates_stop)
    with False "1.prems"(2) show ?thesis by simp
  next
    case enough: True
    have "r \<noteq> 0"
    proof
      assume "r = 0"
      with "1.prems"(3) enough show False by simp
    qed
    then obtain r' where Suc: "r = Suc r'" by (cases r) auto
    with "1.prems"(1) have lt: "n < maxUpdates" and rest: "Suc n + r' = maxUpdates"
      by simp_all
    show ?thesis
    proof (cases "fst (onUpdate cb targetFrameTime t (world L))")
      case True
      with enough lt show ?thesis
        using targetFrameTime_pos by (simp add: fixedUpdates_throw)
    next
      case nothr: False
      let ?L1 = "L\<lparr> world := snd (onUpdate cb targetFrameTime t (world L)),
           invoked := invoked L @ [OnUpdate targetFrameTime t],
           lagRef := lagRef L - targetFrameTime \<rparr>"
      have step: "fixedUpdates cb t n L = fixedUpdates cb t (Suc n) ?L1"
        using enough lt nothr by (rule fixedUpdates_step)
      have nonneg: "0 \<le> lagRef ?L1" using enough by simp
      have "real (Suc r) * targetFrameTime = targetFrameTime + real (Suc r') * targetFrameTime"
        using Suc by (simp add: algebra_simps)
      with "1.prems"(3) have below: "lagRef ?L1 < real (Suc r') * targetFrameTime"
        by simp
      from "1.IH" [OF conjI [OF enough lt] nothr rest nonneg below]
      show ?thesis unfolding step .
    qed
  qed
qed

lemma fixedUpdates_frame:
  "requestRef (fixedUpdates cb t n L) = requestRef L
   \<and> previousTimeRef (fixedUpdates cb t n L) = previousTimeRef L
   \<and> fpsCounterRef (fixedUpdates cb t n L) = fpsCounterRef L"
proof (induction cb t n L rule: fixedUpdates.induct)
  case (1 cb t n L)
  show ?case
  proof (cases "lagRef L \<ge> targetFrameTime \<and> n < maxUpdates")
    case False
    then show ?thesis by (simp add: fixedUpdates_stop)
  next
    case True
    then show ?thesis
      using "1.IH"
      by (cases "fst (onUpdate cb targetFrameTime t (world L))")
         (simp_all add: fixedUpdates_throw fixedUpdates_step)
  qed
qed

lemma gameLoop_fields:
  "invoked (gameLoop cb True t L) =
     invoked (fixedUpdates cb t 0
                (L\<lparr> previousTimeRef := Some t,
                    lagRef := lagRef L + (t - (case previousTimeRef L of None \<Rightarrow> t | Some t0 \<Rightarrow> t0)) \<rparr>))
     @ [OnRender (lagRef (gameLoop cb True t L) / targetFrameTime)]
   \<and> lagRef (gameLoop cb True t L) =
     lagRef (fixedUpdates cb t 0
                (L\<lparr> previousTimeRef := Some t,
                    lagRef := lagRef L + (t - (case previousTimeRef L of None \<Rightarrow> t | Some t0 \<Rightarrow> t0)) \<rparr>))"
  by (simp add: gameLoop_def Let_def render_def requestAnimationFrame_def)

lemma gameLoop_saturated:
  assumes "previousTimeRef L = Some t0"
    and "\<forall>dt t w. \<not> fst (onUpdate cb dt t w)"
    and "lagRef L + (t - t0) \<ge> 5 * targetFrameTime"
  shows "invoked (gameLoop cb True t L) =
           invoked L @ replicate 5 (OnUpdate targetFrameTime t)
           @ [OnRender ((lagRef L + (t - t0) - 5 * targetFrameTime) / targetFrameTime)]
         \<and> lagRef (gameLoop cb True t L) = lagRef L + (t - t0) - 5 * targetFrameTime"
proof -
  let ?L1 = "L\<lparr> previousTimeRef := Some t, lagRef := lagRef L + (t - t0) \<rparr>"
  have inv: "invoked (gameLoop cb True t L) =
     invoked (fixedUpdates cb t 0 ?L1) @ [OnRender (lagRef (gameLoop cb True t L) / targetFrameTime)]"
    and lag: "lagRef (gameLoop cb True t L) = lagRef (fixedUpdates cb t 0 ?L1)"
    using gameLoop_fields [of cb t L] assms(1) by simp_all
  have "lagRef ?L1 \<ge> real (5::nat) * targetFrameTime"
    using assms(3) by simp
  from fixedUpdates_saturated [of 0 5 cb ?L1 t, OF _ assms(2) this]
  have "invoked (fixedUpdates cb t 0 ?L1) = invoked L @ replicate 5 (OnUpdate targetFrameTime t)"
    and "lagRef (fixedUpdates cb t 0 ?L1) = lagRef L + (t - t0) - 5 * targetFrameTime"
    by (simp_all add: maxUpdates_def)
  with inv lag show ?thesis by simp
qed

text \<open>
  C2, as amended. In one callback at most 5 \<^verbatim>\<open>onUpdate\<close> calls are made, all before the
  single \<^verbatim>\<open>onRender\<close> call, whose argument is the remaining lag divided by the tick. With
  an accumulated lag of 10 ticks and no \<^verbatim>\<open>onUpdate\<close> throwing, exactly 5 updates run, the
  remaining 5 ticks stay in the accumulator for the next callback, and the interpolation
  passed to \<^verbatim>\<open>onRender\<close> is 5. The interpolation lies in \<open>[0,1)\<close> whenever the accumulated
  lag is at least 0 and below 6 ticks.
\<close>

theorem gameLoop_burst:
  "previousTimeRef L = Some t0 \<Longrightarrow>
   (\<exists>k \<le> maxUpdates.
      invoked (gameLoop cb True t L) =
        invoked L @ replicate k (OnUpdate targetFrameTime t)
        @ [OnRender (lagRef (gameLoop cb True t L) / targetFrameTime)])
   \<and> (lagRef L + (t - t0) = 10 * targetFrameTime \<and> (\<forall>dt t w. \<not> fst (onUpdate cb dt t w)) \<longrightarrow>
        invoked (gameLoop cb True t L) =
          invoked L @ replicate 5 (OnUpdate targetFrameTime t) @ [OnRender 5]
        \<and> lagRef (gameLoop cb True t L) = 5 * targetFrameTime)
   \<and> (0 \<le> lagRef L + (t - t0) \<and> lagRef L + (t - t0) < 6 * targetFrameTime \<longrightarrow>
        0 \<le> lagRef (gameLoop cb True t L) / targetFrameTime
        \<and> lagRef (gameLoop cb True t L) / targetFrameTime < 1)"
proof -
  assume prev: "previousTimeRef L = Some t0"
  let ?L1 = "L\<lparr> previousTimeRef := Some t, lagRef := lagRef L + (t - t0) \<rparr>"
  have inv: "invoked (gameLoop cb True t L) =
     invoked (fixedUpdates cb t 0 ?L1) @ [OnRender (lagRef (gameLoop cb True t L) / targetFrameTime)]"
    and lag: "lagRef (gameLoop cb True t L) = lagRef (fixedUpdates cb t 0 ?L1)"
    using gameLoop_fields [of cb t L] prev by simp_all
  have shape: "\<exists>k \<le> maxUpdates.
      invoked (gameLoop cb True t L) =
        invoked L @ replicate k (OnUpdate targetFrameTime t)
        @ [OnRender (lagRef (gameLoop cb True t L) / targetFrameTime)]"
    using fixedUpdates_shape [of 0 cb t ?L1] inv by auto
  have burst: "lagRef L + (t - t0) = 10 * targetFrameTime \<and> (\<forall>dt t w. \<not> fst (onUpdate cb dt t w)) \<longrightarrow>
        invoked (gameLoop cb True t L) =
          invoked L @ replicate 5 (OnUpdate targetFrameTime t) @ [OnRender 5]
        \<and> lagRef (gameLoop cb True t L) = 5 * targetFrameTime"
  proof
    assume a: "lagRef L + (t - t0) = 10 * targetFrameTime \<and> (\<forall>dt t w. \<not> fst (onUpdate cb dt t w))"
    then have "lagRef L + (t - t0) \<ge> 5 * targetFrameTime"
      using targetFrameTime_pos by simp
    from gameLoop_saturated [OF prev _ this, of cb] a targetFrameTime_pos
    show "invoked (gameLoop cb True t L) =
          invoked L @ replicate 5 (OnUpdate targetFrameTime t) @ [OnRender 5]
        \<and> lagRef (gameLoop cb True t L) = 5 * targetFrameTime"
      by simp
  qed
  have range: "0 \<le> lagRef L + (t - t0) \<and> lagRef L + (t - t0) < 6 * targetFrameTime \<longrightarrow>
        0 \<le> lagRef (gameLoop cb True t L) / targetFrameTime
        \<and> lagRef (gameLoop cb True t L) / targetFrameTime < 1"
  proof
    assume a: "0 \<le> lagRef L + (t - t0) \<and> lagRef L + (t - t0) < 6 * targetFrameTime"
    then have "0 \<le> lagRef ?L1" and "lagRef ?L1 < real (Suc 5) * targetFrameTime"
      by simp_all
    from fixedUpdates_remainder [of 0 5 ?L1 cb t, OF _ this]
    have "0 \<le> lagRef (fixedUpdates cb t 0 ?L1) \<and> lagRef (fixedUpdates cb t 0 ?L1) < targetFrameTime"
      by (simp add: maxUpdates_def)
    with lag targetFrameTime_pos
    show "0 \<le> lagRef (gameLoop cb True t L) / targetFrameTime
        \<and> lagRef (gameLoop cb True t L) / targetFrameTime < 1"
      by simp
  qed
  from shape burst range show ?thesis by blast
qed

theorem gameLoop_burst_witness:
  "previousTimeRef ((newLoop ())\<lparr> previousTimeRef := Some 0 \<rparr>) = Some 0
   \<and> lagRef ((newLoop ())\<lparr> previousTimeRef := Some 0 \<rparr>) + (166.7 - 0) = 10 * targetFrameTime
   \<and> invoked (gameLoop quietCallbacks True 166.7 ((newLoop ())\<lparr> previousTimeRef := Some 0 \<rparr>))
       = replicate 5 (OnUpdate targetFrameTime 166.7) @ [OnRender 5]
   \<and> lagRef (gameLoop quietCallbacks True 166.7 ((newLoop ())\<lparr> previousTimeRef := Some 0 \<rparr>)) = 83.35
   \<and> 0 \<le> lagRef ((newLoop ())\<lparr> previousTimeRef := Some 0 \<rparr>) + (20 - 0)
   \<and> lagRef ((newLoop ())\<lparr> previousTimeRef := Some 0 \<rparr>) + (20 - 0) < 6 * targetFrameTime
   \<and> 0 \<le> lagRef (gameLoop quietCallbacks True 20 ((newLoop ())\<lparr> previousTimeRef := Some 0 \<rparr>))
            / targetFrameTime
   \<and> lagRef (gameLoop quietCallbacks True 20 ((newLoop ())\<lparr> previousTimeRef := Some 0 \<rparr>))
        / targetFrameTime < 1"
  using gameLoop_burst [of "(newLoop ())\<lparr> previousTimeRef := Some 0 \<rparr>" 0 quietCallbacks "166.7"]
        gameLoop_burst [of "(newLoop ())\<lparr> previousTimeRef := Some 0 \<rparr>" 0 quietCallbacks 20]
  by (simp add: newLoop_def quietCallbacks_def targetFrameTime_def game_targetFrameTime_def)

text \<open>
  C2 as stated fails: after the 5 updates of a 10-tick burst the lag is 5 ticks, not
  dropped, and \<^verbatim>\<open>onRender\<close> receives 5, which is not below 1.
\<close>

theorem gameLoop_burst_counterexample:
  "lagRef ((newLoop ())\<lparr> previousTimeRef := Some 0 \<rparr>) + (166.7 - 0) = 10 * targetFrameTime
   \<and> invoked (gameLoop quietCallbacks True 166.7 ((newLoop ())\<lparr> previousTimeRef := Some 0 \<rparr>))
       = [OnUpdate 16.67 166.7, OnUpdate 16.67 166.7, OnUpdate 16.67 166.7,
          OnUpdate 16.67 166.7, OnUpdate 16.67 166.7, OnRender 5]
   \<and> \<not> (5::real) < 1
   \<and> lagRef (gameLoop quietCallbacks True 166.7 ((newLoop ())\<lparr> previousTimeRef := Some 0 \<rparr>))
       = 5 * targetFrameTime"
  using gameLoop_saturated [of "(newLoop ())\<lparr> previousTimeRef := Some 0 \<rparr>" 0 quietCallbacks "166.7"]
  by (simp add: newLoop_def quietCallbacks_def targetFrameTime_def game_targetFrameTime_def
        eval_nat_numeral)

end
